theory Spec2Isabelle
  imports Main "HOL-Library.Sublist" "HOL-Library.Char_ord" "HOL-Library.List_Lexorder"
begin

section \<open>Constraint template import: data model\<close>

text \<open>
  The development embeds \<^verbatim>\<open>handlers/auth/authConstraintsTemplateService.py\<close> and the
  template request model of \<^verbatim>\<open>models/roleConstraints.py\<close>.

  Python values that the substitution engine walks by \<^verbatim>\<open>isinstance\<close> are a tagged
  union. \<open>PNone\<close> and \<open>PInt\<close> stand for the values that are neither \<^verbatim>\<open>str\<close>, \<^verbatim>\<open>list\<close>
  nor \<^verbatim>\<open>dict\<close>. A \<^verbatim>\<open>dict\<close> is an association list in insertion order, which is the
  order \<^verbatim>\<open>.items()\<close> iterates. A string is a list of characters.
\<close>

datatype pyval =
    PStr string
  | PList "pyval list"
  | PDict "(string \<times> pyval) list"
  | PNone
  | PInt int

type_synonym pydict = "(string \<times> pyval) list"

text \<open>
  \<^verbatim>\<open>variableValues\<close>: variable name to value, in iteration order. The value is held in
  its \<^verbatim>\<open>str(...)\<close> form, which is the value itself for a string.
\<close>

type_synonym var_values = "(string \<times> string) list"

section \<open>Variable substitution engine\<close>

text \<open>
  \<^verbatim>\<open>str.replace(old, new)\<close>: every non-overlapping occurrence of \<open>old\<close>, leftmost
  first, is replaced; the scan resumes behind the occurrence, never inside \<open>new\<close>.
  For an empty \<open>old\<close> Python inserts \<open>new\<close> before every character and at the end.
\<close>

fun py_replace :: "string \<Rightarrow> string \<Rightarrow> string \<Rightarrow> string" where
  "py_replace old new [] = (if old = [] then new else [])"
| "py_replace old new (c # cs) =
     (if old = [] then new @ c # py_replace old new cs
      else if prefix old (c # cs) then new @ py_replace old new (drop (length old) (c # cs))
      else c # py_replace old new cs)"

definition token :: "string \<Rightarrow> string" where
  "token var_name = ''{{'' @ var_name @ ''}}''"

text \<open>
  \<^verbatim>\<open>replace_in_string\<close> on a \<^verbatim>\<open>str\<close>: one \<^verbatim>\<open>replace\<close> per variable, in the
  iteration order of \<^verbatim>\<open>var_values\<close>, each on the result of the one before.
\<close>

fun replace_in_string :: "var_values \<Rightarrow> string \<Rightarrow> string" where
  "replace_in_string [] s = s"
| "replace_in_string ((var_name, var_value) # rest) s =
     replace_in_string rest (py_replace (token var_name) var_value s)"

text \<open>The innermost list comprehension: strings are replaced, other items kept.\<close>

fun subst_inner :: "var_values \<Rightarrow> pyval \<Rightarrow> pyval" where
  "subst_inner vs (PStr s) = PStr (replace_in_string vs s)"
| "subst_inner vs i = i"

text \<open>A value \<open>v\<close> of a dictionary found in a list.\<close>

fun subst_entry :: "var_values \<Rightarrow> pyval \<Rightarrow> pyval" where
  "subst_entry vs (PStr s) = PStr (replace_in_string vs s)"
| "subst_entry vs (PList l) = PList (map (subst_inner vs) l)"
| "subst_entry vs v = v"

text \<open>An item of a list-valued field.\<close>

fun subst_item :: "var_values \<Rightarrow> pyval \<Rightarrow> pyval" where
  "subst_item vs (PDict d) = PDict (map (\<lambda>(k, v). (k, subst_entry vs v)) d)"
| "subst_item vs (PStr s) = PStr (replace_in_string vs s)"
| "subst_item vs item = item"

text \<open>A field value of a constraint.\<close>

fun subst_value :: "var_values \<Rightarrow> pyval \<Rightarrow> pyval" where
  "subst_value vs (PStr s) = PStr (replace_in_string vs s)"
| "subst_value vs (PList l) = PList (map (subst_item vs) l)"
| "subst_value vs v = v"

definition substitute_variables :: "pydict list \<Rightarrow> var_values \<Rightarrow> pydict list" where
  "substitute_variables constraints_data var_values =
     map (\<lambda>constraint. map (\<lambda>(key, v). (key, subst_value var_values v)) constraint)
       constraints_data"

subsection \<open>The scan for unreplaced variables\<close>

text \<open>
  Which characters \<^verbatim>\<open>\w\<close> matches is decided by the character tables of the
  interpreter, so the scan takes the class of word characters as its argument \<open>w\<close>. The
  class holds the letters, the digits and the underscore, and never a brace; on ASCII
  text it is \<open>ascii_word_char\<close>.
\<close>

definition ascii_word_char :: "char \<Rightarrow> bool" where
  "ascii_word_char c \<longleftrightarrow>
     c \<in> set ''abcdefghijklmnopqrstuvwxyzABCDEFGHIJKLMNOPQRSTUVWXYZ0123456789_''"

text \<open>
  A match of \<^verbatim>\<open>\{\{(\w+)\}\}\<close> at the start of \<open>s\<close>: the captured name and the text
  behind the match. \<^verbatim>\<open>\w+\<close> is greedy and takes the longest run of word characters;
  giving a character back never helps, as the closing brace that must follow the name is
  no word character.
\<close>

fun match_at :: "(char \<Rightarrow> bool) \<Rightarrow> string \<Rightarrow> (string \<times> string) option" where
  "match_at w (a # b # r) =
     (if a = CHR ''{'' \<and> b = CHR ''{'' \<and> takeWhile w r \<noteq> [] \<and>
         prefix ''}}'' (dropWhile w r)
      then Some (takeWhile w r, drop 2 (dropWhile w r))
      else None)"
| "match_at w s = None"

lemma match_at_shorter: "match_at w s = Some (n, rest) \<Longrightarrow> length rest < length s"
proof (cases s)
  case Nil
  assume "match_at w s = Some (n, rest)"
  with Nil show ?thesis by simp
next
  case (Cons a s')
  assume m: "match_at w s = Some (n, rest)"
  show ?thesis
  proof (cases s')
    case Nil
    with Cons m show ?thesis by simp
  next
    case (Cons b r)
    have "length (dropWhile w r) \<le> length r"
      by (rule length_dropWhile_le)
    with Cons \<open>s = a # s'\<close> m show ?thesis
      by (auto split: if_splits)
  qed
qed

text \<open>
  \<^verbatim>\<open>pattern.findall\<close>: the captured names of the non-overlapping matches, left to right.
\<close>

function findall :: "(char \<Rightarrow> bool) \<Rightarrow> string \<Rightarrow> string list" where
  "findall w [] = []"
| "findall w (c # cs) =
     (case match_at w (c # cs) of
        Some (n, rest) \<Rightarrow> n # findall w rest
      | None \<Rightarrow> findall w cs)"
  by pat_completeness auto
termination
proof (relation "measure (\<lambda>(w, s). length s)")
  show "wf (measure (\<lambda>(w :: char \<Rightarrow> bool, s :: string). length s))" by simp
next
  fix w c cs x2 x y
  assume "match_at w (c # cs) = Some x2" "(x, y) = x2"
  then have "match_at w (c # cs) = Some (x, y)" by simp
  then have "length y < length (c # cs)" by (rule match_at_shorter)
  then show "((w, y), (w, c # cs)) \<in> measure (\<lambda>(w, s). length s)" by simp
next
  fix w :: "char \<Rightarrow> bool" and c :: char and cs
  show "((w, cs), (w, c # cs)) \<in> measure (\<lambda>(w, s). length s)" by simp
qed

text \<open>\<^verbatim>\<open>scan_value\<close>: the names found in a value, walking lists and dictionary values.\<close>

primrec scan_value :: "(char \<Rightarrow> bool) \<Rightarrow> pyval \<Rightarrow> string list" where
  "scan_value w (PStr s) = findall w s"
| "scan_value w (PList l) = concat (map (scan_value w) l)"
| "scan_value w (PDict d) =
     concat (map (\<lambda>kv. snd kv) (map (map_prod id (scan_value w)) d))"
| "scan_value w PNone = []"
| "scan_value w (PInt n) = []"

definition find_unreplaced_variables :: "(char \<Rightarrow> bool) \<Rightarrow> pydict list \<Rightarrow> string set" where
  "find_unreplaced_variables w constraints_data =
     set (concat (map (\<lambda>constraint. concat (map (\<lambda>(key, v). scan_value w v) constraint))
       constraints_data))"

section \<open>External collaborators\<close>

text \<open>
  What the role registry answers to \<^verbatim>\<open>get_item\<close>: an item, no item, or an exception
  with its text.
\<close>

datatype lookup = Found | NotFound | Throws string

text \<open>
  What the storage table does with one \<^verbatim>\<open>batch_writer\<close> block: every item lands, or the
  write raises after the given number of items has landed.
\<close>

datatype write_outcome = WriteOk | WriteFails nat

text \<open>
  The collaborators the service calls. \<open>uuid4\<close> and \<open>utcnow\<close> answer the n-th call made to
  them; \<open>roles_table\<close> is \<open>None\<close> when \<^verbatim>\<open>ROLES_TABLE_NAME\<close> is not set; \<open>batch_writer\<close>
  answers the n-th batch written; \<open>word_char\<close> is the class of characters that \<^verbatim>\<open>\w\<close>
  matches in the regular expression library.
\<close>

record env =
  uuid4 :: "nat \<Rightarrow> string"
  utcnow :: "nat \<Rightarrow> string"
  json_dumps :: "pyval \<Rightarrow> string"
  roles_table :: "(string \<Rightarrow> lookup) option"
  batch_writer :: "nat \<Rightarrow> write_outcome"
  word_char :: "char \<Rightarrow> bool"

section \<open>Constraint denormalizer\<close>

text \<open>
  A constraint in API format. A permission entry's grantee id is read with
  \<^verbatim>\<open>.get\<close>, so it is \<open>None\<close> when the key is absent.
\<close>

record group_permission =
  perm_id :: string
  groupId :: "string option"
  permission :: pyval
  permissionType :: pyval

record user_permission =
  userId :: "string option"
  user_permission :: pyval
  user_permissionType :: pyval

record constraint_data =
  identifier' :: string
  name :: pyval
  description :: pyval
  objectType :: pyval
  criteriaAnd :: pyval
  criteriaOr :: pyval
  groupPermissions :: "group_permission list"
  userPermissions :: "user_permission list"
  dateCreated :: string
  dateModified :: string
  createdBy :: string
  modifiedBy :: string

text \<open>The permission entries as the dictionaries \<^verbatim>\<open>json.dumps\<close> receives.\<close>

definition group_permission_dict :: "group_permission \<Rightarrow> pyval" where
  "group_permission_dict gp =
     PDict ([(''id'', PStr (perm_id gp))] @
            (case groupId gp of None \<Rightarrow> [] | Some g \<Rightarrow> [(''groupId'', PStr g)]) @
            [(''permission'', permission gp), (''permissionType'', permissionType gp)])"

definition user_permission_dict :: "user_permission \<Rightarrow> pyval" where
  "user_permission_dict up =
     PDict ((case userId up of None \<Rightarrow> [] | Some u \<Rightarrow> [(''userId'', PStr u)]) @
            [(''permission'', user_permission up),
             (''permissionType'', user_permissionType up)])"

text \<open>\<^verbatim>\<open>base_item\<close>: the fields every denormalized item of a constraint shares.\<close>

record base_item =
  b_name :: pyval
  b_description :: pyval
  b_objectType :: pyval
  b_criteriaAnd :: string
  b_criteriaOr :: string
  b_groupPermissions :: string
  b_userPermissions :: string
  b_dateCreated :: string
  b_dateModified :: string
  b_createdBy :: string
  b_modifiedBy :: string

text \<open>
  A denormalized storage item: a copy of the base item with its key \<^verbatim>\<open>constraintId\<close>, and
  with \<^verbatim>\<open>groupId\<close> or \<^verbatim>\<open>userId\<close> when it is the item of a grantee.
\<close>

record storage_item =
  constraintId :: string
  item_groupId :: "string option"
  item_userId :: "string option"
  base :: base_item

definition group_item :: "base_item \<Rightarrow> string \<Rightarrow> string \<Rightarrow> storage_item" where
  "group_item b base_constraint_id group_id =
     \<lparr>constraintId = base_constraint_id @ ''#group#'' @ group_id,
      item_groupId = Some group_id, item_userId = None, base = b\<rparr>"

definition user_item :: "base_item \<Rightarrow> string \<Rightarrow> string \<Rightarrow> storage_item" where
  "user_item b base_constraint_id user_id =
     \<lparr>constraintId = base_constraint_id @ ''#user#'' @ user_id,
      item_groupId = None, item_userId = Some user_id, base = b\<rparr>"

definition bare_item :: "base_item \<Rightarrow> string \<Rightarrow> storage_item" where
  "bare_item b base_constraint_id =
     \<lparr>constraintId = base_constraint_id, item_groupId = None, item_userId = None, base = b\<rparr>"

text \<open>
  The loop over \<^verbatim>\<open>group_permissions\<close>, with \<^verbatim>\<open>unique_group_ids\<close> as \<open>seen\<close>. A grantee
  id that is \<open>None\<close> or empty is falsy and skipped.
\<close>

fun group_items ::
  "base_item \<Rightarrow> string \<Rightarrow> string set \<Rightarrow> group_permission list \<Rightarrow> storage_item list" where
  "group_items b cid seen [] = []"
| "group_items b cid seen (group_perm # rest) =
     (case groupId group_perm of
        None \<Rightarrow> group_items b cid seen rest
      | Some group_id \<Rightarrow>
          if group_id \<noteq> [] \<and> group_id \<notin> seen
          then group_item b cid group_id # group_items b cid (insert group_id seen) rest
          else group_items b cid seen rest)"

fun user_items ::
  "base_item \<Rightarrow> string \<Rightarrow> string set \<Rightarrow> user_permission list \<Rightarrow> storage_item list" where
  "user_items b cid seen [] = []"
| "user_items b cid seen (user_perm # rest) =
     (case userId user_perm of
        None \<Rightarrow> user_items b cid seen rest
      | Some user_id \<Rightarrow>
          if user_id \<noteq> [] \<and> user_id \<notin> seen
          then user_item b cid user_id # user_items b cid (insert user_id seen) rest
          else user_items b cid seen rest)"

text \<open>
  The base item. Every key is present in \<open>constraint_data\<close>, so no \<^verbatim>\<open>.get\<close> default
  is taken; \<open>now\<close> is the time read for \<^verbatim>\<open>dateModified\<close>.
\<close>

definition make_base_item :: "env \<Rightarrow> string \<Rightarrow> constraint_data \<Rightarrow> base_item" where
  "make_base_item e now cd =
     \<lparr>b_name = name cd, b_description = description cd, b_objectType = objectType cd,
      b_criteriaAnd = json_dumps e (criteriaAnd cd),
      b_criteriaOr = json_dumps e (criteriaOr cd),
      b_groupPermissions = json_dumps e (PList (map group_permission_dict (groupPermissions cd))),
      b_userPermissions = json_dumps e (PList (map user_permission_dict (userPermissions cd))),
      b_dateCreated = dateCreated cd, b_dateModified = now,
      b_createdBy = createdBy cd, b_modifiedBy = modifiedBy cd\<rparr>"

definition transform_to_denormalized_format ::
  "env \<Rightarrow> string \<Rightarrow> constraint_data \<Rightarrow> storage_item list" where
  "transform_to_denormalized_format e now cd =
     (let base_constraint_id = identifier' cd;
          b = make_base_item e now cd;
          items = group_items b base_constraint_id {} (groupPermissions cd) @
                  user_items b base_constraint_id {} (userPermissions cd)
      in if length items = 0 then [bare_item b base_constraint_id] else items)"

text \<open>The distinct non-empty grantee ids of a constraint.\<close>

definition group_ids :: "group_permission list \<Rightarrow> string set" where
  "group_ids gps = {g. Some g \<in> groupId ` set gps \<and> g \<noteq> []}"

definition user_ids :: "user_permission list \<Rightarrow> string set" where
  "user_ids ups = {u. Some u \<in> userId ` set ups \<and> u \<noteq> []}"

text \<open>The items of a constraint before the fallback to the bare item.\<close>

definition grantee_items :: "env \<Rightarrow> string \<Rightarrow> constraint_data \<Rightarrow> storage_item list" where
  "grantee_items e now cd =
     group_items (make_base_item e now cd) (identifier' cd) {} (groupPermissions cd) @
     user_items (make_base_item e now cd) (identifier' cd) {} (userPermissions cd)"

section \<open>State, exceptions and log\<close>

text \<open>
  The exceptions that can leave the service's functions. \<open>StorageError\<close> is whatever the
  table client raises from a batch write; it is neither of the two classes the handler
  names.
\<close>

datatype exn =
    KeyError string
  | TypeError
  | ValidationError string
  | VAMSGeneralErrorResponse string
  | StorageError

text \<open>
  The log keeps the warnings, the exception records and the audit event; the
  \<^verbatim>\<open>logger.info\<close> and \<^verbatim>\<open>logger.error\<close> lines are left out.
\<close>

datatype log_entry =
    Warning string
  | ExceptionLog string
  | AuditLog string string nat "string list"

text \<open>
  The state the service works on: the items that have landed in the constraints table,
  in the order written; the log; and how many calls the collaborators have answered.
\<close>

record state =
  store :: "storage_item list"
  logs :: "log_entry list"
  uuid_calls :: nat
  clock_calls :: nat
  batches :: nat

definition log_warning :: "string \<Rightarrow> state \<Rightarrow> state" where
  "log_warning msg st = st\<lparr>logs := logs st @ [Warning msg]\<rparr>"

section \<open>Role existence checker\<close>

definition validate_constraint_role_exists :: "env \<Rightarrow> string \<Rightarrow> state \<Rightarrow> bool \<times> state" where
  "validate_constraint_role_exists e group_id st =
     (case roles_table e of
        None \<Rightarrow>
          (True, log_warning
             (''Roles table not configured, skipping role validation for '' @ group_id) st)
      | Some get_item \<Rightarrow>
          (case get_item group_id of
             Found \<Rightarrow> (True, st)
           | NotFound \<Rightarrow> (False, st)
           | Throws msg \<Rightarrow>
               (True, log_warning
                  (''Could not validate groupId '' @ [CHR 0x27] @ group_id @ [CHR 0x27] @
                   '': '' @ msg) st)))"

section \<open>Building the constraint payload\<close>

text \<open>What a \<^verbatim>\<open>for\<close> loop iterates when given a value.\<close>

fun py_iter :: "pyval \<Rightarrow> exn + pyval list" where
  "py_iter (PList l) = Inr l"
| "py_iter (PStr s) = Inr (map (\<lambda>c. PStr [c]) s)"
| "py_iter (PDict d) = Inr (map (\<lambda>kv. PStr (fst kv)) d)"
| "py_iter PNone = Inl TypeError"
| "py_iter (PInt n) = Inl TypeError"

text \<open>\<^verbatim>\<open>perm[key]\<close>: a dictionary is needed, and the key.\<close>

fun py_getitem :: "pyval \<Rightarrow> string \<Rightarrow> exn + pyval" where
  "py_getitem (PDict d) k = (case map_of d k of None \<Rightarrow> Inl (KeyError k) | Some v \<Rightarrow> Inr v)"
| "py_getitem v k = Inl TypeError"

text \<open>\<^verbatim>\<open>d.get(key, default)\<close> on a dictionary.\<close>

definition py_get :: "pydict \<Rightarrow> string \<Rightarrow> pyval \<Rightarrow> pyval" where
  "py_get d k dflt = (case map_of d k of None \<Rightarrow> dflt | Some v \<Rightarrow> v)"

text \<open>
  The loop over the template's permission entries. Each entry takes a fresh id, is bound
  to \<open>role_name\<close>, and has \<^verbatim>\<open>action\<close> and \<^verbatim>\<open>type\<close> read. The number returned is the
  count of \<^verbatim>\<open>uuid4\<close> calls made so far.
\<close>

fun build_group_permissions ::
  "env \<Rightarrow> string \<Rightarrow> pyval list \<Rightarrow> nat \<Rightarrow> (exn + group_permission list) \<times> nat" where
  "build_group_permissions e role_name [] n = (Inr [], n)"
| "build_group_permissions e role_name (perm # rest) n =
     (case py_getitem perm ''action'' of
        Inl x \<Rightarrow> (Inl x, Suc n)
      | Inr a \<Rightarrow>
          (case py_getitem perm ''type'' of
             Inl x \<Rightarrow> (Inl x, Suc n)
           | Inr t \<Rightarrow>
               (case build_group_permissions e role_name rest (Suc n) of
                  (Inl x, n') \<Rightarrow> (Inl x, n')
                | (Inr gps, n') \<Rightarrow>
                    (Inr (\<lparr>perm_id = uuid4 e n, groupId = Some role_name,
                           permission = a, permissionType = t\<rparr> # gps), n'))))"

text \<open>The caller's identity: the first token, or the sentinel actor.\<close>

record claims =
  tokens :: "string list"

definition username_of :: "claims \<Rightarrow> string" where
  "username_of claims_and_roles =
     (case tokens claims_and_roles of [] \<Rightarrow> ''system'' | t # _ \<Rightarrow> t)"

definition build_constraint_data ::
  "env \<Rightarrow> pydict \<Rightarrow> string \<Rightarrow> claims \<Rightarrow> state \<Rightarrow> (exn + constraint_data) \<times> state" where
  "build_constraint_data e constraint role_name claims_and_roles st =
     (let constraint_id = uuid4 e (uuid_calls st);
          now = utcnow e (clock_calls st);
          username = username_of claims_and_roles;
          st1 = st\<lparr>uuid_calls := Suc (uuid_calls st), clock_calls := Suc (clock_calls st)\<rparr>
      in case py_iter (py_get constraint ''groupPermissions'' (PList [])) of
           Inl x \<Rightarrow> (Inl x, st1)
         | Inr perms \<Rightarrow>
             (case build_group_permissions e role_name perms (uuid_calls st1) of
                (Inl x, n) \<Rightarrow> (Inl x, st1\<lparr>uuid_calls := n\<rparr>)
              | (Inr group_permissions, n) \<Rightarrow>
                  (case map_of constraint ''name'' of
                     None \<Rightarrow> (Inl (KeyError ''name''), st1\<lparr>uuid_calls := n\<rparr>)
                   | Some nm \<Rightarrow>
                  (case map_of constraint ''description'' of
                     None \<Rightarrow> (Inl (KeyError ''description''), st1\<lparr>uuid_calls := n\<rparr>)
                   | Some ds \<Rightarrow>
                  (case map_of constraint ''objectType'' of
                     None \<Rightarrow> (Inl (KeyError ''objectType''), st1\<lparr>uuid_calls := n\<rparr>)
                   | Some ot \<Rightarrow>
                       (Inr \<lparr>identifier' = constraint_id, name = nm, description = ds,
                             objectType = ot,
                             criteriaAnd = py_get constraint ''criteriaAnd'' (PList []),
                             criteriaOr = py_get constraint ''criteriaOr'' (PList []),
                             groupPermissions = group_permissions,
                             userPermissions = [],
                             dateCreated = now, dateModified = now,
                             createdBy = username, modifiedBy = username\<rparr>,
                        st1\<lparr>uuid_calls := n\<rparr>))))))"

section \<open>Template request model\<close>

text \<open>
  The request after field validation, as the root validator and \<^verbatim>\<open>.dict(exclude_unset=True)\<close>
  see it. An optional list that was sent as \<^verbatim>\<open>null\<close> is \<open>None\<close>; one that was not sent has
  its default \<^verbatim>\<open>[]\<close>. A permission entry's \<^verbatim>\<open>type\<close> has the default \<^verbatim>\<open>allow\<close>, and
  \<open>type_set\<close> tells whether the request gave it: an unset field is not in the dictionary.
\<close>

datatype criteria_value = VStr string | VList "string list"

record criteria =
  field :: string
  operator :: string
  cvalue :: criteria_value

record template_permission =
  action :: string
  ptype :: string
  type_set :: bool

record template_constraint =
  tc_name :: string
  tc_description :: string
  tc_objectType :: string
  tc_criteriaAnd :: "criteria list option"
  tc_criteriaOr :: "criteria list option"
  tc_groupPermissions :: "template_permission list"

record template_variable =
  var_name :: string
  required :: bool
  var_description :: "string option"
  default :: "string option"

record template_metadata =
  template_name :: string

record request =
  template :: "template_metadata option"
  variables :: "template_variable list option"
  variableValues :: var_values
  constraints :: "template_constraint list"

text \<open>
  The constants of \<^verbatim>\<open>common.constants\<close> and the \<^verbatim>\<open>OBJECT_NAME\<close> validator of
  \<^verbatim>\<open>common.validators\<close>, which answers with a flag and a message.
\<close>

record common =
  ALLOWED_CONSTRAINT_PERMISSIONS :: "string list"
  ALLOWED_CONSTRAINT_PERMISSION_TYPES :: "string list"
  ALLOWED_CONSTRAINT_OBJECT_TYPES :: "string list"
  ALLOWED_CONSTRAINT_OPERATORS :: "string list"
  validate_object_name :: "string \<Rightarrow> bool \<times> string"

text \<open>\<^verbatim>\<open>sep.join(xs)\<close>.\<close>

fun py_join :: "string \<Rightarrow> string list \<Rightarrow> string" where
  "py_join sep [] = []"
| "py_join sep [x] = x"
| "py_join sep (x # y # ys) = x @ sep @ py_join sep (y # ys)"

definition quoted :: "string \<Rightarrow> string" where
  "quoted s = [CHR 0x27] @ s @ [CHR 0x27]"

section \<open>Constraint validator (template level)\<close>

text \<open>
  The loop over the declared variables: a required variable without a value takes its
  default into \<^verbatim>\<open>variable_values\<close>, or the validation fails.
\<close>

fun check_variables :: "template_variable list \<Rightarrow> var_values \<Rightarrow> string + var_values" where
  "check_variables [] variable_values = Inr variable_values"
| "check_variables (var_def # rest) variable_values =
     (if required var_def \<and> var_name var_def \<notin> set (map fst variable_values)
      then (case default var_def of
              Some d \<Rightarrow> check_variables rest (variable_values @ [(var_name var_def, d)])
            | None \<Rightarrow>
                Inl (''Required variable '' @ quoted (var_name var_def) @
                     '' not provided in variableValues. Description: '' @
                     (case var_description var_def of None \<Rightarrow> ''None'' | Some d \<Rightarrow> d)))
      else check_variables rest variable_values)"

fun check_operators :: "common \<Rightarrow> criteria list \<Rightarrow> string option" where
  "check_operators k [] = None"
| "check_operators k (c # rest) =
     (if operator c \<notin> set (ALLOWED_CONSTRAINT_OPERATORS k)
      then Some (''Invalid operator '' @ quoted (operator c) @ ''. Allowed: '' @
                 py_join '', '' (ALLOWED_CONSTRAINT_OPERATORS k))
      else check_operators k rest)"

fun check_permissions :: "common \<Rightarrow> template_permission list \<Rightarrow> string option" where
  "check_permissions k [] = None"
| "check_permissions k (perm # rest) =
     (if action perm \<notin> set (ALLOWED_CONSTRAINT_PERMISSIONS k)
      then Some (''Invalid permission action '' @ quoted (action perm) @ ''. Allowed: '' @
                 py_join '', '' (ALLOWED_CONSTRAINT_PERMISSIONS k))
      else if ptype perm \<notin> set (ALLOWED_CONSTRAINT_PERMISSION_TYPES k)
      then Some (''Invalid permission type '' @ quoted (ptype perm) @ ''. Allowed: '' @
                 py_join '', '' (ALLOWED_CONSTRAINT_PERMISSION_TYPES k))
      else check_permissions k rest)"

definition or_empty :: "'a list option \<Rightarrow> 'a list" where
  "or_empty l = (case l of None \<Rightarrow> [] | Some xs \<Rightarrow> xs)"

fun check_constraints :: "common \<Rightarrow> template_constraint list \<Rightarrow> string option" where
  "check_constraints k [] = None"
| "check_constraints k (c # rest) =
     (if tc_objectType c \<notin> set (ALLOWED_CONSTRAINT_OBJECT_TYPES k)
      then Some (''Invalid objectType '' @ quoted (tc_objectType c) @ ''. Allowed: '' @
                 py_join '', '' (ALLOWED_CONSTRAINT_OBJECT_TYPES k))
      else if or_empty (tc_criteriaAnd c) = [] \<and> or_empty (tc_criteriaOr c) = []
      then Some (''Constraint '' @ quoted (tc_name c) @
                 '' must have at least one criteriaAnd or criteriaOr'')
      else (case check_operators k (or_empty (tc_criteriaAnd c) @ or_empty (tc_criteriaOr c)) of
              Some msg \<Rightarrow> Some msg
            | None \<Rightarrow>
                (case check_permissions k (tc_groupPermissions c) of
                   Some msg \<Rightarrow> Some msg
                 | None \<Rightarrow> check_constraints k rest)))"

text \<open>
  The root validator: \<open>Inl\<close> is the text of the \<^verbatim>\<open>ValueError\<close> (or \<^verbatim>\<open>TypeError\<close>) it
  raises, \<open>Inr\<close> the values it returns, with the defaults filled into \<^verbatim>\<open>variableValues\<close>.
\<close>

definition validate_template_import :: "common \<Rightarrow> request \<Rightarrow> string + request" where
  "validate_template_import k values =
     (let variable_values = variableValues values in
      case map_of variable_values ''ROLE_NAME'' of
        None \<Rightarrow>
          Inl (''variableValues must include '' @ quoted ''ROLE_NAME'' @
               '' (used as groupId for all constraints)'')
      | Some role_name \<Rightarrow>
          (case validate_object_name k role_name of
             (False, message) \<Rightarrow> Inl (''Invalid ROLE_NAME: '' @ message)
           | (True, message) \<Rightarrow>
               (case variables values of
                  None \<Rightarrow> Inl ''NoneType object is not iterable''
                | Some var_defs \<Rightarrow>
                    (case check_variables var_defs variable_values of
                       Inl msg \<Rightarrow> Inl msg
                     | Inr variable_values' \<Rightarrow>
                         if constraints values = []
                         then Inl ''At least one constraint is required''
                         else (case check_constraints k (constraints values) of
                                 Some msg \<Rightarrow> Inl msg
                               | None \<Rightarrow>
                                   Inr (values\<lparr>variableValues := variable_values'\<rparr>))))))"

section \<open>Import orchestrator\<close>

text \<open>
  The dictionaries \<^verbatim>\<open>request_model.dict(exclude_unset=True)\<close> gives for the entries of
  a template constraint, and the \<^verbatim>\<open>c_dict\<close> the orchestrator builds from a constraint.
\<close>

definition criteria_dict :: "criteria \<Rightarrow> pyval" where
  "criteria_dict c =
     PDict [(''field'', PStr (field c)), (''operator'', PStr (operator c)),
            (''value'', case cvalue c of VStr s \<Rightarrow> PStr s | VList l \<Rightarrow> PList (map PStr l))]"

definition permission_dict :: "template_permission \<Rightarrow> pyval" where
  "permission_dict p =
     PDict ([(''action'', PStr (action p))] @
            (if type_set p then [(''type'', PStr (ptype p))] else []))"

definition criteria_list :: "criteria list option \<Rightarrow> pyval" where
  "criteria_list l = (case l of None \<Rightarrow> PNone | Some cs \<Rightarrow> PList (map criteria_dict cs))"

definition c_dict :: "template_constraint \<Rightarrow> pydict" where
  "c_dict c =
     [(''name'', PStr (tc_name c)),
      (''description'', PStr (tc_description c)),
      (''objectType'', PStr (tc_objectType c)),
      (''criteriaAnd'', criteria_list (tc_criteriaAnd c)),
      (''criteriaOr'', criteria_list (tc_criteriaOr c)),
      (''groupPermissions'', PList (map permission_dict (tc_groupPermissions c)))]"

text \<open>\<^verbatim>\<open>str(n)\<close> of a natural number.\<close>

fun str_nat :: "nat \<Rightarrow> string" where
  "str_nat n =
     (if n < 10 then [char_of (48 + n)]
      else str_nat (n div 10) @ [char_of (48 + n mod 10)])"

declare str_nat.simps [simp del]

record response_model =
  success :: bool
  message :: string
  constraintsCreated :: nat
  constraintIds :: "string list"
  timestamp :: string

definition unreplaced_message :: "string set \<Rightarrow> string" where
  "unreplaced_message unreplaced =
     ''Unreplaced template variables found after substitution: '' @
     py_join '', '' (sorted_list_of_set unreplaced) @
     ''. Provide values for these in variableValues.''"

text \<open>
  The loop that creates the constraints. Each constraint is built, denormalized and
  written in one \<^verbatim>\<open>batch_writer\<close> block; an exception leaves the loop with the state
  as it is at that point.
\<close>

fun create_constraints ::
  "env \<Rightarrow> string \<Rightarrow> claims \<Rightarrow> pydict list \<Rightarrow> string list \<Rightarrow> state \<Rightarrow>
     (exn + string list) \<times> state" where
  "create_constraints e role_name claims_and_roles [] created_constraint_ids st =
     (Inr created_constraint_ids, st)"
| "create_constraints e role_name claims_and_roles (constraint # rest) created_constraint_ids st =
     (case build_constraint_data e constraint role_name claims_and_roles st of
        (Inl x, st1) \<Rightarrow> (Inl x, st1)
      | (Inr constraint_data, st1) \<Rightarrow>
          (let denormalized_items =
                 transform_to_denormalized_format e (utcnow e (Suc (clock_calls st1)))
                   constraint_data;
               st2 = st1\<lparr>clock_calls := clock_calls st1 + 2, batches := Suc (batches st1)\<rparr>
           in case batch_writer e (batches st1) of
                WriteFails landed \<Rightarrow>
                  (Inl StorageError,
                   st2\<lparr>store := store st2 @ take landed denormalized_items\<rparr>)
              | WriteOk \<Rightarrow>
                  create_constraints e role_name claims_and_roles rest
                    (created_constraint_ids @ [identifier' constraint_data])
                    (st2\<lparr>store := store st2 @ denormalized_items\<rparr>)))"

definition role_missing_warning :: "string \<Rightarrow> string" where
  "role_missing_warning role_name =
     ''Role '' @ quoted role_name @ '' does not exist in roles table. '' @
     ''Constraints will be created but may not be effective until the role is created.''"

text \<open>The state in which the creation loop starts: the role check has run.\<close>

definition after_role_check :: "env \<Rightarrow> string \<Rightarrow> state \<Rightarrow> state" where
  "after_role_check e role_name st =
     (case validate_constraint_role_exists e role_name st of
        (role_exists, st1) \<Rightarrow>
          if \<not> role_exists then log_warning (role_missing_warning role_name) st1 else st1)"

definition import_template_constraints ::
  "env \<Rightarrow> request \<Rightarrow> claims \<Rightarrow> state \<Rightarrow> (exn + response_model) \<times> state" where
  "import_template_constraints e template_data claims_and_roles st =
     (let variable_values = variableValues template_data in
      case map_of variable_values ''ROLE_NAME'' of
        None \<Rightarrow> (Inl (KeyError ''ROLE_NAME''), st)
      | Some role_name \<Rightarrow>
          (let constraints_dicts = map c_dict (constraints template_data);
               substituted_constraints = substitute_variables constraints_dicts variable_values;
               unreplaced = find_unreplaced_variables (word_char e) substituted_constraints
           in if unreplaced \<noteq> {}
              then (Inl (VAMSGeneralErrorResponse (unreplaced_message unreplaced)), st)
              else
                (case validate_constraint_role_exists e role_name st of
                   (role_exists, st1) \<Rightarrow>
                     (let st2 = (if \<not> role_exists
                                 then log_warning (role_missing_warning role_name) st1
                                 else st1)
                      in case create_constraints e role_name claims_and_roles
                                substituted_constraints [] st2 of
                           (Inl x, st3) \<Rightarrow> (Inl x, st3)
                         | (Inr created_constraint_ids, st3) \<Rightarrow>
                             (let now = utcnow e (clock_calls st3);
                                  template_name =
                                    (case template template_data of
                                       None \<Rightarrow> ''unknown''
                                     | Some t \<Rightarrow> template_name t)
                              in (Inr \<lparr>success = True,
                                       message =
                                         ''Successfully imported '' @
                                         str_nat (length created_constraint_ids) @
                                         '' constraints from template '' @ quoted template_name @
                                         '' for role '' @ quoted role_name,
                                       constraintsCreated = length created_constraint_ids,
                                       constraintIds = created_constraint_ids,
                                       timestamp = now\<rparr>,
                                  st3\<lparr>clock_calls := Suc (clock_calls st3)\<rparr>))))))"

section \<open>Handler\<close>

text \<open>
  The request body as the handler meets it: missing, not JSON, neither text nor an
  object, refused by the field validation of the request model (with the report), or
  accepted by it.
\<close>

datatype body =
    NoBody
  | InvalidJson
  | NotStrOrDict
  | FieldErrors string
  | Parsed request

record event =
  request_tokens :: "string list"
  enforceAPI :: bool
  http_method :: string
  event_body :: body

datatype http_response =
    Success response_model
  | Validation_error string
  | General_error string
  | Internal_error
  | Authorization_error

definition log_exception :: "string \<Rightarrow> state \<Rightarrow> state" where
  "log_exception msg st = st\<lparr>logs := logs st @ [ExceptionLog msg]\<rparr>"

text \<open>
  The three \<^verbatim>\<open>except\<close> clauses. For a \<^verbatim>\<open>ValidationError\<close> the response carries the
  text that was raised; the report the model library wraps around it is left out.
\<close>

fun handle_exception :: "exn \<Rightarrow> state \<Rightarrow> http_response \<times> state" where
  "handle_exception (ValidationError v) st =
     (Validation_error v, log_exception (''Validation error: '' @ v) st)"
| "handle_exception (VAMSGeneralErrorResponse v) st =
     (General_error v, log_exception (''VAMS error: '' @ v) st)"
| "handle_exception x st = (Internal_error, log_exception ''Internal error'' st)"

definition lambda_handler :: "env \<Rightarrow> common \<Rightarrow> event \<Rightarrow> state \<Rightarrow> http_response \<times> state" where
  "lambda_handler e k ev st =
     (let claims_and_roles = \<lparr>tokens = request_tokens ev\<rparr> in
      if \<not> (length (tokens claims_and_roles) > 0 \<and> enforceAPI ev)
      then (Authorization_error, st)
      else if http_method ev \<noteq> ''POST''
      then (Validation_error ''Method not allowed. Only POST is supported.'', st)
      else (case event_body ev of
              NoBody \<Rightarrow> (Validation_error ''Request body is required'', st)
            | InvalidJson \<Rightarrow>
                (Validation_error ''Invalid JSON in request body'',
                 log_exception ''Invalid JSON in request body'' st)
            | NotStrOrDict \<Rightarrow> (Validation_error ''Request body cannot be parsed'', st)
            | FieldErrors v \<Rightarrow> handle_exception (ValidationError v) st
            | Parsed values \<Rightarrow>
                (case validate_template_import k values of
                   Inl v \<Rightarrow> handle_exception (ValidationError v) st
                 | Inr request_model \<Rightarrow>
                     (case import_template_constraints e request_model claims_and_roles st of
                        (Inl x, st') \<Rightarrow> handle_exception x st'
                      | (Inr result, st') \<Rightarrow>
                          (Success result,
                           st'\<lparr>logs := logs st' @
                             [AuditLog
                                (case template request_model of
                                   None \<Rightarrow> ''unknown'' | Some t \<Rightarrow> template_name t)
                                (case map_of (variableValues request_model) ''ROLE_NAME'' of
                                   None \<Rightarrow> ''unknown'' | Some r \<Rightarrow> r)
                                (constraintsCreated result)
                                (constraintIds result)]\<rparr>)))))"

section \<open>Sample inputs\<close>

text \<open>Collaborators that always answer, and a table that takes every write.\<close>

definition sample_env :: env where
  "sample_env =
     \<lparr>uuid4 = (\<lambda>n. ''uuid-'' @ str_nat n),
      utcnow = (\<lambda>n. ''2024-01-01T00:00:0'' @ str_nat n),
      json_dumps = (\<lambda>v. ''[]''),
      roles_table = None,
      batch_writer = (\<lambda>n. WriteOk),
      word_char = ascii_word_char\<rparr>"

definition sample_constraint ::
  "group_permission list \<Rightarrow> user_permission list \<Rightarrow> constraint_data" where
  "sample_constraint gps ups =
     \<lparr>identifier' = ''c1'', name = PStr ''db-admin-access'', description = PStr ''access'',
      objectType = PStr ''asset'', criteriaAnd = PList [], criteriaOr = PList [],
      groupPermissions = gps, userPermissions = ups,
      dateCreated = ''2024-01-01T00:00:00'', dateModified = ''2024-01-01T00:00:00'',
      createdBy = ''system'', modifiedBy = ''system''\<rparr>"

definition sample_group_permission :: "string option \<Rightarrow> group_permission" where
  "sample_group_permission g =
     \<lparr>perm_id = ''p'', groupId = g, permission = PStr ''GET'', permissionType = PStr ''allow''\<rparr>"

definition sample_user_permission :: "string option \<Rightarrow> user_permission" where
  "sample_user_permission u =
     \<lparr>userId = u, user_permission = PStr ''GET'', user_permissionType = PStr ''allow''\<rparr>"

text \<open>Group permissions for A, A and B, and a user permission for U.\<close>

definition fanout_constraint :: constraint_data where
  "fanout_constraint =
     sample_constraint
       [sample_group_permission (Some ''A''), sample_group_permission (Some ''A''),
        sample_group_permission (Some ''B'')]
       [sample_user_permission (Some ''U'')]"

text \<open>A group permission whose \<^verbatim>\<open>groupId\<close> is the empty string.\<close>

definition empty_group_id_constraint :: constraint_data where
  "empty_group_id_constraint = sample_constraint [sample_group_permission (Some [])] []"

text \<open>Permission entries without a grantee: an empty id, and no id at all.\<close>

definition blank_grantee_constraint :: constraint_data where
  "blank_grantee_constraint =
     sample_constraint
       [sample_group_permission (Some []), sample_group_permission None]
       [sample_user_permission (Some [])]"

text \<open>No permission entries.\<close>

definition no_grantee_constraint :: constraint_data where
  "no_grantee_constraint = sample_constraint [] []"

text \<open>
  Constants and an \<^verbatim>\<open>OBJECT_NAME\<close> validator for the sample runs; the theorems hold for
  any.
\<close>

definition sample_common :: common where
  "sample_common =
     \<lparr>ALLOWED_CONSTRAINT_PERMISSIONS = [''GET'', ''PUT'', ''POST'', ''DELETE''],
      ALLOWED_CONSTRAINT_PERMISSION_TYPES = [''allow'', ''deny''],
      ALLOWED_CONSTRAINT_OBJECT_TYPES = [''asset'', ''database''],
      ALLOWED_CONSTRAINT_OPERATORS = [''equals'', ''contains''],
      validate_object_name = (\<lambda>s. if s = [] then (False, ''empty name'') else (True, ''''))\<rparr>"

text \<open>
  The template of the end-to-end scenario: one constraint named by \<open>nm\<close> on assets whose
  \<^verbatim>\<open>databaseId\<close> equals \<open>v\<close>, with the permission GET/allow.
\<close>

definition sample_template_constraint :: "string \<Rightarrow> string \<Rightarrow> template_constraint" where
  "sample_template_constraint nm v =
     \<lparr>tc_name = nm, tc_description = ''access'', tc_objectType = ''asset'',
      tc_criteriaAnd = Some [\<lparr>field = ''databaseId'', operator = ''equals'', cvalue = VStr v\<rparr>],
      tc_criteriaOr = Some [],
      tc_groupPermissions = [\<lparr>action = ''GET'', ptype = ''allow'', type_set = True\<rparr>]\<rparr>"

definition sample_request :: "var_values \<Rightarrow> template_constraint list \<Rightarrow> request" where
  "sample_request vs cs =
     \<lparr>template = Some \<lparr>template_name = ''database-admin''\<rparr>, variables = Some [],
      variableValues = vs, constraints = cs\<rparr>"

definition sample_event :: "request \<Rightarrow> event" where
  "sample_event r =
     \<lparr>request_tokens = [''alice''], enforceAPI = True, http_method = ''POST'',
      event_body = Parsed r\<rparr>"

definition empty_state :: state where
  "empty_state = \<lparr>store = [], logs = [], uuid_calls = 0, clock_calls = 0, batches = 0\<rparr>"

text \<open>The end-to-end scenario.\<close>

definition scenario_request :: request where
  "scenario_request =
     sample_request [(''ROLE_NAME'', ''db-admin''), (''DATABASE_ID'', ''proj1'')]
       [sample_template_constraint ''{{ROLE_NAME}}-access'' ''{{DATABASE_ID}}'']"

text \<open>The same template without a value for \<^verbatim>\<open>ROLE_NAME\<close>.\<close>

definition no_role_name_request :: request where
  "no_role_name_request =
     sample_request [(''DATABASE_ID'', ''proj1'')]
       [sample_template_constraint ''db-admin-access'' ''{{DATABASE_ID}}'']"

text \<open>A substituted template constraint, as \<^verbatim>\<open>build_constraint_data\<close> receives it.\<close>

definition substituted_constraint :: pydict where
  "substituted_constraint =
     [(''name'', PStr ''db-admin-access''),
      (''description'', PStr ''access''),
      (''objectType'', PStr ''asset''),
      (''criteriaAnd'',
       PList [PDict [(''field'', PStr ''databaseId''), (''operator'', PStr ''equals''),
                     (''value'', PStr ''proj1'')]]),
      (''criteriaOr'', PList []),
      (''groupPermissions'',
       PList [PDict [(''action'', PStr ''GET''), (''type'', PStr ''allow'')],
              PDict [(''action'', PStr ''PUT''), (''type'', PStr ''allow'')]])]"

definition alice :: claims where
  "alice = \<lparr>tokens = [''alice'']\<rparr>"



text \<open>A template that uses two variables for which no value is given.\<close>

definition unresolved_request :: request where
  "unresolved_request =
     sample_request [(''ROLE_NAME'', ''db-admin'')]
       [sample_template_constraint ''{{ROLE_NAME}}-{{ZONE}}'' ''{{DATABASE_ID}}'']"

text \<open>
  A table that refuses the second batch before any of its items lands, and a template
  with two constraints.
\<close>

definition failing_env :: env where
  "failing_env = sample_env\<lparr>batch_writer := (\<lambda>n. if n = 1 then WriteFails 0 else WriteOk)\<rparr>"

definition two_constraint_request :: request where
  "two_constraint_request =
     sample_request [(''ROLE_NAME'', ''db-admin''), (''DATABASE_ID'', ''proj1'')]
       [sample_template_constraint ''{{ROLE_NAME}}-read'' ''{{DATABASE_ID}}'',
        sample_template_constraint ''{{ROLE_NAME}}-write'' ''{{DATABASE_ID}}'']"

text \<open>A constraint of that template after substitution.\<close>

definition substituted_sample :: "string \<Rightarrow> pydict" where
  "substituted_sample nm =
     [(''name'', PStr nm),
      (''description'', PStr ''access''),
      (''objectType'', PStr ''asset''),
      (''criteriaAnd'',
       PList [PDict [(''field'', PStr ''databaseId''), (''operator'', PStr ''equals''),
                     (''value'', PStr ''proj1'')]]),
      (''criteriaOr'', PList []),
      (''groupPermissions'',
       PList [PDict [(''action'', PStr ''GET''), (''type'', PStr ''allow'')]])]"

section \<open>Well-formed template text\<close>

text \<open>A variable name or a value without braces.\<close>

definition brace_free :: "string \<Rightarrow> bool" where
  "brace_free s \<longleftrightarrow> CHR ''{'' \<notin> set s \<and> CHR ''}'' \<notin> set s"

text \<open>
  Text made of characters other than braces and of tokens \<^verbatim>\<open>{{NAME}}\<close> whose name has no
  brace and is one of \<open>names\<close>.
\<close>

inductive tokenised :: "string set \<Rightarrow> string \<Rightarrow> bool" for names where
  tokenised_Nil: "tokenised names []"
| tokenised_char:
    "tokenised names s \<Longrightarrow> c \<noteq> CHR ''{'' \<Longrightarrow> c \<noteq> CHR ''}'' \<Longrightarrow> tokenised names (c # s)"
| tokenised_token:
    "tokenised names s \<Longrightarrow> n \<in> names \<Longrightarrow> brace_free n \<Longrightarrow> tokenised names (token n @ s)"

text \<open>The strings of a template constraint that reach the substitution.\<close>

definition criteria_strings :: "criteria \<Rightarrow> string list" where
  "criteria_strings c =
     [field c, operator c] @ (case cvalue c of VStr s \<Rightarrow> [s] | VList l \<Rightarrow> l)"

definition permission_strings :: "template_permission \<Rightarrow> string list" where
  "permission_strings p = action p # (if type_set p then [ptype p] else [])"

definition template_strings :: "template_constraint \<Rightarrow> string list" where
  "template_strings c =
     [tc_name c, tc_description c, tc_objectType c] @
     concat (map criteria_strings (or_empty (tc_criteriaAnd c))) @
     concat (map criteria_strings (or_empty (tc_criteriaOr c))) @
     concat (map permission_strings (tc_groupPermissions c))"

text \<open>A value that holds a token of a variable iterated later, and one iterated earlier.\<close>

definition nested_later :: var_values where
  "nested_later = [(''A'', ''{{B}}''), (''B'', ''x'')]"

definition nested_earlier :: var_values where
  "nested_earlier = [(''B'', ''x''), (''A'', ''{{B}}''), (''C'', ''y'')]"

text \<open>
  A template whose declared variables all have a value, and which uses a variable that
  is not declared.
\<close>

definition undeclared_variable_request :: request where
  "undeclared_variable_request =
     \<lparr>template = Some \<lparr>template_name = ''database-admin''\<rparr>,
      variables =
        Some [\<lparr>var_name = ''ROLE_NAME'', required = True, var_description = None,
                default = None\<rparr>,
              \<lparr>var_name = ''DATABASE_ID'', required = True, var_description = None,
                default = None\<rparr>],
      variableValues = [(''ROLE_NAME'', ''db-admin''), (''DATABASE_ID'', ''proj1'')],
      constraints = [sample_template_constraint ''{{ROLE_NAME}}-{{ZONE}}'' ''{{DATABASE_ID}}'']\<rparr>"

section \<open>The denormalizer: one item per grantee\<close>

lemma set_group_items:
  "set (group_items b cid seen gps) = group_item b cid ` (group_ids gps - seen)"
proof (induction gps arbitrary: seen)
  case Nil
  show ?case by (simp add: group_ids_def)
next
  case (Cons gp gps)
  have split: "group_ids (gp # gps) =
      (case groupId gp of None \<Rightarrow> {} | Some g \<Rightarrow> if g \<noteq> [] then {g} else {}) \<union> group_ids gps"
    by (auto simp: group_ids_def split: option.splits)
  show ?case
    by (auto simp: Cons.IH split split: option.splits)
qed

lemma distinct_group_items:
  "distinct (map constraintId (group_items b cid seen gps))"
proof (induction gps arbitrary: seen)
  case Nil
  show ?case by simp
next
  case (Cons gp gps)
  show ?case
    by (auto simp: Cons.IH set_group_items group_item_def split: option.splits)
qed

lemma keys_group_items:
  "set (map constraintId (group_items b cid seen gps)) =
     (\<lambda>g. cid @ ''#group#'' @ g) ` (group_ids gps - seen)"
  by (simp add: set_group_items image_image group_item_def)

lemma length_group_items:
  "length (group_items b cid seen gps) = card (group_ids gps - seen)"
proof -
  have "card (set (map constraintId (group_items b cid seen gps))) =
          length (map constraintId (group_items b cid seen gps))"
    by (rule distinct_card) (rule distinct_group_items)
  moreover have "card ((\<lambda>g. cid @ ''#group#'' @ g) ` (group_ids gps - seen)) =
          card (group_ids gps - seen)"
    by (rule card_image) (simp add: inj_on_def)
  ultimately show ?thesis
    by (simp only: keys_group_items length_map)
qed

lemma set_user_items:
  "set (user_items b cid seen ups) = user_item b cid ` (user_ids ups - seen)"
proof (induction ups arbitrary: seen)
  case Nil
  show ?case by (simp add: user_ids_def)
next
  case (Cons up ups)
  have split: "user_ids (up # ups) =
      (case userId up of None \<Rightarrow> {} | Some u \<Rightarrow> if u \<noteq> [] then {u} else {}) \<union> user_ids ups"
    by (auto simp: user_ids_def split: option.splits)
  show ?case
    by (auto simp: Cons.IH split split: option.splits)
qed

lemma distinct_user_items:
  "distinct (map constraintId (user_items b cid seen ups))"
proof (induction ups arbitrary: seen)
  case Nil
  show ?case by simp
next
  case (Cons up ups)
  show ?case
    by (auto simp: Cons.IH set_user_items user_item_def split: option.splits)
qed

lemma keys_user_items:
  "set (map constraintId (user_items b cid seen ups)) =
     (\<lambda>u. cid @ ''#user#'' @ u) ` (user_ids ups - seen)"
  by (simp add: set_user_items image_image user_item_def)

lemma length_user_items:
  "length (user_items b cid seen ups) = card (user_ids ups - seen)"
proof -
  have "card (set (map constraintId (user_items b cid seen ups))) =
          length (map constraintId (user_items b cid seen ups))"
    by (rule distinct_card) (rule distinct_user_items)
  moreover have "card ((\<lambda>u. cid @ ''#user#'' @ u) ` (user_ids ups - seen)) =
          card (user_ids ups - seen)"
    by (rule card_image) (simp add: inj_on_def)
  ultimately show ?thesis
    by (simp only: keys_user_items length_map)
qed

lemma finite_group_ids: "finite (group_ids gps)"
proof -
  have "group_ids gps \<subseteq> Some -` (groupId ` set gps)"
    by (auto simp: group_ids_def)
  moreover have "finite (Some -` (groupId ` set gps))"
    by (rule finite_vimageI) simp_all
  ultimately show ?thesis by (rule finite_subset)
qed

lemma finite_user_ids: "finite (user_ids ups)"
proof -
  have "user_ids ups \<subseteq> Some -` (userId ` set ups)"
    by (auto simp: user_ids_def)
  moreover have "finite (Some -` (userId ` set ups))"
    by (rule finite_vimageI) simp_all
  ultimately show ?thesis by (rule finite_subset)
qed


lemma transform_unfold:
  "transform_to_denormalized_format e now cd =
     (if grantee_items e now cd = []
      then [bare_item (make_base_item e now cd) (identifier' cd)]
      else grantee_items e now cd)"
  by (simp add: transform_to_denormalized_format_def grantee_items_def Let_def)

lemma length_grantee_items:
  "length (grantee_items e now cd) =
     card (group_ids (groupPermissions cd)) + card (user_ids (userPermissions cd))"
  by (simp add: grantee_items_def length_group_items length_user_items)

lemma distinct_grantee_items: "distinct (map constraintId (grantee_items e now cd))"
proof -
  let ?gs = "group_items (make_base_item e now cd) (identifier' cd) {} (groupPermissions cd)"
  let ?us = "user_items (make_base_item e now cd) (identifier' cd) {} (userPermissions cd)"
  have "set (map constraintId ?gs) \<inter> set (map constraintId ?us) = {}"
    unfolding keys_group_items keys_user_items by auto
  then have "distinct (map constraintId ?gs @ map constraintId ?us)"
    unfolding distinct_append
    using distinct_group_items distinct_user_items by blast
  then show ?thesis by (simp add: grantee_items_def)
qed

lemma keys_grantee_items:
  "set (map constraintId (grantee_items e now cd)) =
     (\<lambda>g. identifier' cd @ ''#group#'' @ g) ` group_ids (groupPermissions cd) \<union>
     (\<lambda>u. identifier' cd @ ''#user#'' @ u) ` user_ids (userPermissions cd)"
  unfolding grantee_items_def map_append set_append keys_group_items keys_user_items
  by simp

lemma grantee_items_empty_iff:
  "grantee_items e now cd = [] \<longleftrightarrow>
     group_ids (groupPermissions cd) = {} \<and> user_ids (userPermissions cd) = {}"
proof -
  have "grantee_items e now cd = [] \<longleftrightarrow> length (grantee_items e now cd) = 0" by simp
  also have "\<dots> \<longleftrightarrow> group_ids (groupPermissions cd) = {} \<and> user_ids (userPermissions cd) = {}"
    by (simp add: length_grantee_items finite_group_ids finite_user_ids)
  finally show ?thesis .
qed

lemma exactly_one_key:
  "distinct (map f xs) \<Longrightarrow> k \<in> set (map f xs) \<Longrightarrow> length (filter (\<lambda>x. f x = k) xs) = 1"
proof (induction xs)
  case Nil
  then show ?case by simp
next
  case (Cons x xs)
  show ?case
  proof (cases "f x = k")
    case True
    with Cons.prems have "k \<notin> f ` set xs" by auto
    then have "filter (\<lambda>x. f x = k) xs = []" by (auto simp: filter_empty_conv)
    with True show ?thesis by simp
  next
    case False
    with Cons show ?thesis by auto
  qed
qed

subsection \<open>Fan-out per distinct grantee\<close>

text \<open>
  C1, as stated, says that every distinct \<^verbatim>\<open>groupId\<close> appearing in \<^verbatim>\<open>groupPermissions\<close>
  gets one item keyed \<^verbatim>\<open>constraintId#group#groupId\<close>. The loop skips a grantee id that is
  empty: a constraint whose only group permission has the empty \<^verbatim>\<open>groupId\<close> is stored as
  the single bare item, and no item keyed \<^verbatim>\<open>c1#group#\<close> exists.
\<close>

theorem denormalize_empty_group_id_counterexample:
  "Some [] \<in> groupId ` set (groupPermissions empty_group_id_constraint) \<and>
   map constraintId
     (transform_to_denormalized_format sample_env ''t'' empty_group_id_constraint) = [''c1''] \<and>
   length (filter (\<lambda>it. constraintId it = identifier' empty_group_id_constraint @ ''#group#'' @ [])
     (transform_to_denormalized_format sample_env ''t'' empty_group_id_constraint)) \<noteq> 1"
  by (simp add: empty_group_id_constraint_def sample_constraint_def sample_group_permission_def
      transform_to_denormalized_format_def bare_item_def)

text \<open>
  C1, amended. For every constraint, denormalization emits exactly one item per distinct
  non-empty \<^verbatim>\<open>groupId\<close> of \<^verbatim>\<open>groupPermissions\<close>, keyed \<^verbatim>\<open>constraintId#group#groupId\<close>, and
  exactly one item per distinct non-empty \<^verbatim>\<open>userId\<close> of \<^verbatim>\<open>userPermissions\<close>, keyed
  \<^verbatim>\<open>constraintId#user#userId\<close>. When there is such a grantee these are all the items, so
  entries sharing a grantee id are not written twice.
\<close>

theorem denormalize_one_item_per_grantee:
  "(\<forall>g \<in> group_ids (groupPermissions cd).
      length (filter (\<lambda>it. constraintId it = identifier' cd @ ''#group#'' @ g)
        (transform_to_denormalized_format e now cd)) = 1)
   \<and> (\<forall>u \<in> user_ids (userPermissions cd).
      length (filter (\<lambda>it. constraintId it = identifier' cd @ ''#user#'' @ u)
        (transform_to_denormalized_format e now cd)) = 1)
   \<and> (group_ids (groupPermissions cd) \<union> user_ids (userPermissions cd) \<noteq> {} \<longrightarrow>
      length (transform_to_denormalized_format e now cd) =
        card (group_ids (groupPermissions cd)) + card (user_ids (userPermissions cd)) \<and>
      set (map constraintId (transform_to_denormalized_format e now cd)) =
        (\<lambda>g. identifier' cd @ ''#group#'' @ g) ` group_ids (groupPermissions cd) \<union>
        (\<lambda>u. identifier' cd @ ''#user#'' @ u) ` user_ids (userPermissions cd))"
proof (intro conjI ballI impI)
  fix g assume g: "g \<in> group_ids (groupPermissions cd)"
  then have ne: "grantee_items e now cd \<noteq> []"
    by (auto simp: grantee_items_empty_iff)
  from g have "identifier' cd @ ''#group#'' @ g \<in> set (map constraintId (grantee_items e now cd))"
    unfolding keys_grantee_items by blast
  with distinct_grantee_items [of e now cd] ne
  show "length (filter (\<lambda>it. constraintId it = identifier' cd @ ''#group#'' @ g)
        (transform_to_denormalized_format e now cd)) = 1"
    by (simp only: transform_unfold if_False exactly_one_key)
next
  fix u assume u: "u \<in> user_ids (userPermissions cd)"
  then have ne: "grantee_items e now cd \<noteq> []"
    by (auto simp: grantee_items_empty_iff)
  from u have "identifier' cd @ ''#user#'' @ u \<in> set (map constraintId (grantee_items e now cd))"
    unfolding keys_grantee_items by blast
  with distinct_grantee_items [of e now cd] ne
  show "length (filter (\<lambda>it. constraintId it = identifier' cd @ ''#user#'' @ u)
        (transform_to_denormalized_format e now cd)) = 1"
    by (simp only: transform_unfold if_False exactly_one_key)
next
  assume "group_ids (groupPermissions cd) \<union> user_ids (userPermissions cd) \<noteq> {}"
  then have ne: "grantee_items e now cd \<noteq> []"
    by (auto simp: grantee_items_empty_iff)
  then show "length (transform_to_denormalized_format e now cd) =
        card (group_ids (groupPermissions cd)) + card (user_ids (userPermissions cd))"
    by (simp add: transform_unfold length_grantee_items)
  from ne show "set (map constraintId (transform_to_denormalized_format e now cd)) =
        (\<lambda>g. identifier' cd @ ''#group#'' @ g) ` group_ids (groupPermissions cd) \<union>
        (\<lambda>u. identifier' cd @ ''#user#'' @ u) ` user_ids (userPermissions cd)"
    by (simp only: transform_unfold if_False keys_grantee_items)
qed

lemma group_ids_fanout: "group_ids (groupPermissions fanout_constraint) = {''A'', ''B''}"
  by (auto simp: group_ids_def fanout_constraint_def sample_constraint_def
      sample_group_permission_def)

lemma user_ids_fanout: "user_ids (userPermissions fanout_constraint) = {''U''}"
  by (auto simp: user_ids_def fanout_constraint_def sample_constraint_def
      sample_user_permission_def)

theorem denormalize_one_item_per_grantee_witness:
  "group_ids (groupPermissions fanout_constraint) \<union>
     user_ids (userPermissions fanout_constraint) \<noteq> {} \<and>
   ''A'' \<in> group_ids (groupPermissions fanout_constraint) \<and>
   ''U'' \<in> user_ids (userPermissions fanout_constraint) \<and>
   length (filter (\<lambda>it. constraintId it = ''c1#group#A'')
     (transform_to_denormalized_format sample_env ''t'' fanout_constraint)) = 1 \<and>
   length (filter (\<lambda>it. constraintId it = ''c1#user#U'')
     (transform_to_denormalized_format sample_env ''t'' fanout_constraint)) = 1 \<and>
   length (transform_to_denormalized_format sample_env ''t'' fanout_constraint) = 3 \<and>
   set (map constraintId (transform_to_denormalized_format sample_env ''t'' fanout_constraint)) =
     {''c1#group#A'', ''c1#group#B'', ''c1#user#U''}"
proof -
  have id: "identifier' fanout_constraint = ''c1''"
    by (simp add: fanout_constraint_def sample_constraint_def)
  have ne: "group_ids (groupPermissions fanout_constraint) \<union>
     user_ids (userPermissions fanout_constraint) \<noteq> {}"
    by (simp add: group_ids_fanout)
  have a: "''A'' \<in> group_ids (groupPermissions fanout_constraint)"
    by (simp add: group_ids_fanout)
  have u: "''U'' \<in> user_ids (userPermissions fanout_constraint)"
    by (simp add: user_ids_fanout)
  note t = denormalize_one_item_per_grantee [of fanout_constraint sample_env "''t''"]
  from t a have "length (filter (\<lambda>it. constraintId it = identifier' fanout_constraint @ ''#group#'' @ ''A'')
     (transform_to_denormalized_format sample_env ''t'' fanout_constraint)) = 1"
    by blast
  moreover from t u have "length (filter (\<lambda>it. constraintId it = identifier' fanout_constraint @ ''#user#'' @ ''U'')
     (transform_to_denormalized_format sample_env ''t'' fanout_constraint)) = 1"
    by blast
  moreover from t ne have "length (transform_to_denormalized_format sample_env ''t'' fanout_constraint) =
        card (group_ids (groupPermissions fanout_constraint)) +
        card (user_ids (userPermissions fanout_constraint))"
    by blast
  moreover from t ne have "set (map constraintId (transform_to_denormalized_format sample_env ''t'' fanout_constraint)) =
        (\<lambda>g. identifier' fanout_constraint @ ''#group#'' @ g) ` group_ids (groupPermissions fanout_constraint) \<union>
        (\<lambda>u. identifier' fanout_constraint @ ''#user#'' @ u) ` user_ids (userPermissions fanout_constraint)"
    by blast
  ultimately show ?thesis
    using ne a u by (simp add: id group_ids_fanout user_ids_fanout insert_commute)
qed

lemma fanout_keys_in_order:
  "map constraintId (transform_to_denormalized_format e now fanout_constraint) =
     [''c1#group#A'', ''c1#group#B'', ''c1#user#U'']"
  by (simp add: fanout_constraint_def sample_constraint_def sample_group_permission_def
      sample_user_permission_def transform_to_denormalized_format_def group_item_def
      user_item_def Let_def)

subsection \<open>The fallback and entries without a grantee\<close>

text \<open>
  C2. A constraint whose group and user permission lists are both empty is denormalized
  into exactly one item, and its key is the bare constraint id.
\<close>

theorem denormalize_no_grantee_fallback:
  "groupPermissions cd = [] \<Longrightarrow> userPermissions cd = [] \<Longrightarrow>
   transform_to_denormalized_format e now cd =
     [bare_item (make_base_item e now cd) (identifier' cd)] \<and>
   map constraintId (transform_to_denormalized_format e now cd) = [identifier' cd]"
  by (simp add: transform_to_denormalized_format_def bare_item_def)

theorem denormalize_no_grantee_fallback_witness:
  "groupPermissions no_grantee_constraint = [] \<and> userPermissions no_grantee_constraint = [] \<and>
   map constraintId (transform_to_denormalized_format sample_env ''t'' no_grantee_constraint) =
     [''c1'']"
proof -
  have g: "groupPermissions no_grantee_constraint = []"
    by (simp add: no_grantee_constraint_def sample_constraint_def)
  have u: "userPermissions no_grantee_constraint = []"
    by (simp add: no_grantee_constraint_def sample_constraint_def)
  have "identifier' no_grantee_constraint = ''c1''"
    by (simp add: no_grantee_constraint_def sample_constraint_def)
  with denormalize_no_grantee_fallback [OF g u, of sample_env "''t''"] g u
  show ?thesis by (simp add: bare_item_def)
qed

text \<open>
  C10. A permission entry whose grantee id is absent or empty contributes no item: the
  number of items is the greater of 1 and the number of distinct non-empty group ids plus
  the number of distinct non-empty user ids; no item carries an empty grantee id; and a
  constraint all of whose entries have an absent or empty grantee id is stored as the
  single item keyed by the bare constraint id.
\<close>

theorem denormalize_counts_nonempty_grantees:
  "length (transform_to_denormalized_format e now cd) =
     max 1 (card (group_ids (groupPermissions cd)) + card (user_ids (userPermissions cd)))
   \<and> ((\<forall>gp \<in> set (groupPermissions cd). groupId gp = None \<or> groupId gp = Some []) \<and>
       (\<forall>up \<in> set (userPermissions cd). userId up = None \<or> userId up = Some []) \<longrightarrow>
       transform_to_denormalized_format e now cd =
         [bare_item (make_base_item e now cd) (identifier' cd)] \<and>
       map constraintId (transform_to_denormalized_format e now cd) = [identifier' cd])
   \<and> (\<forall>it \<in> set (transform_to_denormalized_format e now cd).
         item_groupId it \<noteq> Some [] \<and> item_userId it \<noteq> Some [])"
proof (intro conjI impI)
  show "length (transform_to_denormalized_format e now cd) =
     max 1 (card (group_ids (groupPermissions cd)) + card (user_ids (userPermissions cd)))"
  proof (cases "grantee_items e now cd = []")
    case True
    with length_grantee_items [of e now cd] show ?thesis
      by (simp add: transform_unfold)
  next
    case False
    then have "max 1 (length (grantee_items e now cd)) = length (grantee_items e now cd)"
      by (cases "grantee_items e now cd") simp_all
    with False show ?thesis
      by (simp only: transform_unfold if_False length_grantee_items)
  qed
next
  assume a: "(\<forall>gp \<in> set (groupPermissions cd). groupId gp = None \<or> groupId gp = Some []) \<and>
       (\<forall>up \<in> set (userPermissions cd). userId up = None \<or> userId up = Some [])"
  then have "group_ids (groupPermissions cd) = {}" "user_ids (userPermissions cd) = {}"
    by (auto simp: group_ids_def user_ids_def)
  then have bare: "transform_to_denormalized_format e now cd =
         [bare_item (make_base_item e now cd) (identifier' cd)]"
    by (simp add: transform_unfold grantee_items_empty_iff)
  then show "transform_to_denormalized_format e now cd =
         [bare_item (make_base_item e now cd) (identifier' cd)]" .
  from bare show "map constraintId (transform_to_denormalized_format e now cd) =
         [identifier' cd]"
    by (simp add: bare_item_def)
next
  have "\<forall>it \<in> set (grantee_items e now cd). item_groupId it \<noteq> Some [] \<and> item_userId it \<noteq> Some []"
    by (auto simp: grantee_items_def set_group_items set_user_items group_item_def user_item_def
        group_ids_def user_ids_def)
  then show "\<forall>it \<in> set (transform_to_denormalized_format e now cd).
         item_groupId it \<noteq> Some [] \<and> item_userId it \<noteq> Some []"
    by (simp add: transform_unfold bare_item_def)
qed

theorem denormalize_counts_nonempty_grantees_witness:
  "map groupId (groupPermissions blank_grantee_constraint) = [Some [], None] \<and>
   map userId (userPermissions blank_grantee_constraint) = [Some []] \<and>
   length (transform_to_denormalized_format sample_env ''t'' blank_grantee_constraint) = 1 \<and>
   map constraintId
     (transform_to_denormalized_format sample_env ''t'' blank_grantee_constraint) = [''c1''] \<and>
   map item_groupId
     (transform_to_denormalized_format sample_env ''t'' blank_grantee_constraint) = [None] \<and>
   map item_userId
     (transform_to_denormalized_format sample_env ''t'' blank_grantee_constraint) = [None]"
proof -
  have g: "\<forall>gp \<in> set (groupPermissions blank_grantee_constraint).
      groupId gp = None \<or> groupId gp = Some []"
    by (simp add: blank_grantee_constraint_def sample_constraint_def sample_group_permission_def)
  have u: "\<forall>up \<in> set (userPermissions blank_grantee_constraint).
      userId up = None \<or> userId up = Some []"
    by (simp add: blank_grantee_constraint_def sample_constraint_def sample_user_permission_def)
  have id: "identifier' blank_grantee_constraint = ''c1''"
    by (simp add: blank_grantee_constraint_def sample_constraint_def)
  note t = denormalize_counts_nonempty_grantees [of sample_env "''t''" blank_grantee_constraint]
  from t g u have "transform_to_denormalized_format sample_env ''t'' blank_grantee_constraint =
         [bare_item (make_base_item sample_env ''t'' blank_grantee_constraint)
            (identifier' blank_grantee_constraint)]"
    by blast
  then show ?thesis
    by (simp add: bare_item_def id)
       (simp add: blank_grantee_constraint_def sample_constraint_def
          sample_group_permission_def sample_user_permission_def)
qed

section \<open>Validation: ROLE_NAME is required\<close>

lemma sublist_quoted: "sublist s (xs @ quoted s @ ys)"
proof -
  have "xs @ quoted s @ ys = (xs @ [CHR 0x27]) @ s @ ([CHR 0x27] @ ys)"
    by (simp add: quoted_def)
  then show ?thesis
    unfolding sublist_def by blast
qed

lemma validate_without_role_name:
  "map_of (variableValues values) ''ROLE_NAME'' = None \<Longrightarrow>
   validate_template_import k values =
     Inl (''variableValues must include '' @ quoted ''ROLE_NAME'' @
          '' (used as groupId for all constraints)'')"
  by (simp add: validate_template_import_def)

lemma handler_on_parsed:
  "request_tokens ev \<noteq> [] \<Longrightarrow> enforceAPI ev \<Longrightarrow> http_method ev = ''POST'' \<Longrightarrow>
   event_body ev = Parsed values \<Longrightarrow>
   lambda_handler e k ev st =
     (case validate_template_import k values of
        Inl v \<Rightarrow> handle_exception (ValidationError v) st
      | Inr request_model \<Rightarrow>
          (case import_template_constraints e request_model \<lparr>tokens = request_tokens ev\<rparr> st of
             (Inl x, st') \<Rightarrow> handle_exception x st'
           | (Inr result, st') \<Rightarrow>
               (Success result,
                st'\<lparr>logs := logs st' @
                  [AuditLog
                     (case template request_model of
                        None \<Rightarrow> ''unknown'' | Some t \<Rightarrow> template_name t)
                     (case map_of (variableValues request_model) ''ROLE_NAME'' of
                        None \<Rightarrow> ''unknown'' | Some r \<Rightarrow> r)
                     (constraintsCreated result)
                     (constraintIds result)]\<rparr>)))"
  by (simp add: lambda_handler_def)

lemma store_handle_exception: "store (snd (handle_exception x st)) = store st"
  by (cases x) (simp_all add: log_exception_def)

text \<open>
  C7. A template whose \<^verbatim>\<open>variableValues\<close> omits the key \<^verbatim>\<open>ROLE_NAME\<close> is rejected by the
  validator with an error whose text names \<^verbatim>\<open>ROLE_NAME\<close>, whatever its constraints are; the
  handler answers with that validation error and the constraints table is left as it was.
\<close>

theorem role_name_required:
  "''ROLE_NAME'' \<notin> fst ` set (variableValues values) \<Longrightarrow>
   (\<exists>msg. validate_template_import k values = Inl msg \<and> sublist ''ROLE_NAME'' msg \<and>
      (request_tokens ev \<noteq> [] \<and> enforceAPI ev \<and> http_method ev = ''POST'' \<and>
       event_body ev = Parsed values \<longrightarrow>
         fst (lambda_handler e k ev st) = Validation_error msg \<and>
         store (snd (lambda_handler e k ev st)) = store st))"
proof -
  assume "''ROLE_NAME'' \<notin> fst ` set (variableValues values)"
  then have none: "map_of (variableValues values) ''ROLE_NAME'' = None"
    by (simp add: map_of_eq_None_iff)
  let ?msg = "''variableValues must include '' @ quoted ''ROLE_NAME'' @
          '' (used as groupId for all constraints)''"
  have v: "validate_template_import k values = Inl ?msg"
    using none by (rule validate_without_role_name)
  have s: "sublist ''ROLE_NAME'' ?msg"
    by (rule sublist_quoted)
  have h: "fst (lambda_handler e k ev st) = Validation_error ?msg \<and>
         store (snd (lambda_handler e k ev st)) = store st"
    if "request_tokens ev \<noteq> []" "enforceAPI ev" "http_method ev = ''POST''"
       "event_body ev = Parsed values"
    using that by (simp add: handler_on_parsed v log_exception_def)
  from v s h show ?thesis by blast
qed

theorem role_name_required_witness:
  "''ROLE_NAME'' \<notin> fst ` set (variableValues no_role_name_request) \<and>
   check_constraints sample_common (constraints no_role_name_request) = None \<and>
   fst (lambda_handler sample_env sample_common (sample_event no_role_name_request) empty_state) =
     Validation_error (''variableValues must include '' @ quoted ''ROLE_NAME'' @
        '' (used as groupId for all constraints)'') \<and>
   store (snd (lambda_handler sample_env sample_common (sample_event no_role_name_request)
     empty_state)) = []"
proof -
  have om: "''ROLE_NAME'' \<notin> fst ` set (variableValues no_role_name_request)"
    by (simp add: no_role_name_request_def sample_request_def)
  have ok: "check_constraints sample_common (constraints no_role_name_request) = None"
    by (simp add: no_role_name_request_def sample_request_def sample_template_constraint_def
        sample_common_def or_empty_def)
  have ev: "request_tokens (sample_event no_role_name_request) \<noteq> [] \<and>
     enforceAPI (sample_event no_role_name_request) \<and>
     http_method (sample_event no_role_name_request) = ''POST'' \<and>
     event_body (sample_event no_role_name_request) = Parsed no_role_name_request"
    by (simp add: sample_event_def)
  have v: "validate_template_import sample_common no_role_name_request =
     Inl (''variableValues must include '' @ quoted ''ROLE_NAME'' @
        '' (used as groupId for all constraints)'')"
    by (simp add: validate_template_import_def no_role_name_request_def sample_request_def)
  from role_name_required [OF om, of sample_common "sample_event no_role_name_request"
      sample_env empty_state] ev v
  have "fst (lambda_handler sample_env sample_common (sample_event no_role_name_request)
          empty_state) =
     Validation_error (''variableValues must include '' @ quoted ''ROLE_NAME'' @
        '' (used as groupId for all constraints)'') \<and>
   store (snd (lambda_handler sample_env sample_common (sample_event no_role_name_request)
     empty_state)) = store empty_state"
    by auto
  with om ok show ?thesis by (simp add: empty_state_def)
qed

section \<open>The import is scoped to one role\<close>

lemma build_group_permissions_groupId:
  "build_group_permissions e role_name perms n = (Inr gps, n') \<Longrightarrow>
   \<forall>gp \<in> set gps. groupId gp = Some role_name"
proof (induction perms arbitrary: n gps n')
  case Nil
  then show ?case by simp
next
  case (Cons perm rest)
  then show ?case
    by (auto split: sum.splits prod.splits)
qed

lemma build_constraint_data_permissions:
  "build_constraint_data e constraint role_name c st = (Inr cd, st') \<Longrightarrow>
   (\<forall>gp \<in> set (groupPermissions cd). groupId gp = Some role_name) \<and> userPermissions cd = []"
  by (auto simp: build_constraint_data_def Let_def
      split: sum.splits prod.splits option.splits dest: build_group_permissions_groupId)

lemma transform_item_grantee:
  assumes "\<forall>gp \<in> set (groupPermissions cd). groupId gp = Some role_name"
    and "userPermissions cd = []"
  shows "\<forall>it \<in> set (transform_to_denormalized_format e now cd).
           (item_groupId it = None \<or> item_groupId it = Some role_name) \<and> item_userId it = None"
proof -
  have "group_ids (groupPermissions cd) \<subseteq> {role_name}"
    using assms(1) by (auto simp: group_ids_def)
  then have "\<forall>it \<in> set (grantee_items e now cd).
           (item_groupId it = None \<or> item_groupId it = Some role_name) \<and> item_userId it = None"
    using assms(2)
    by (auto simp: grantee_items_def set_group_items group_item_def)
  then show ?thesis
    by (simp add: transform_unfold bare_item_def)
qed

lemma create_constraints_items:
  "create_constraints e role_name c cs ids st = (res, st') \<Longrightarrow>
   \<exists>new. store st' = store st @ new \<and>
     (\<forall>it \<in> set new.
        (item_groupId it = None \<or> item_groupId it = Some role_name) \<and> item_userId it = None)"
proof (induction cs arbitrary: ids st)
  case Nil
  then show ?case by auto
next
  case (Cons constraint rest)
  show ?case
  proof (cases "build_constraint_data e constraint role_name c st")
    case (Pair r st1)
    show ?thesis
    proof (cases r)
      case (Inl x)
      with Pair Cons.prems have "st' = st1" by simp
      moreover have "store st1 = store st"
        using Pair Inl
        by (auto simp: build_constraint_data_def Let_def
            split: sum.splits prod.splits option.splits)
      ultimately show ?thesis by auto
    next
      case (Inr cd)
      have st1: "store st1 = store st"
        using Pair Inr
        by (auto simp: build_constraint_data_def Let_def
            split: sum.splits prod.splits option.splits)
      let ?items = "transform_to_denormalized_format e (utcnow e (Suc (clock_calls st1))) cd"
      have items: "\<forall>it \<in> set ?items.
           (item_groupId it = None \<or> item_groupId it = Some role_name) \<and> item_userId it = None"
        using build_constraint_data_permissions [of e constraint role_name c st cd st1] Pair Inr
        by (intro transform_item_grantee) auto
      show ?thesis
      proof (cases "batch_writer e (batches st1)")
        case WriteOk
        let ?st2 = "st1\<lparr>clock_calls := clock_calls st1 + 2, batches := Suc (batches st1),
                       store := store st1 @ ?items\<rparr>"
        from Cons.prems Pair Inr WriteOk
        have "create_constraints e role_name c rest (ids @ [identifier' cd]) ?st2 = (res, st')"
          by (simp add: Let_def)
        from Cons.IH [OF this] obtain new where
          "store st' = store ?st2 @ new"
          "\<forall>it \<in> set new.
             (item_groupId it = None \<or> item_groupId it = Some role_name) \<and> item_userId it = None"
          by blast
        with items st1 have "store st' = store st @ (?items @ new) \<and> (\<forall>it \<in> set (?items @ new).
             (item_groupId it = None \<or> item_groupId it = Some role_name) \<and> item_userId it = None)"
          by auto
        then show ?thesis by blast
      next
        case (WriteFails landed)
        from Cons.prems Pair Inr WriteFails
        have "store st' = store st1 @ take landed ?items"
          by (auto simp: Let_def)
        moreover have "\<forall>it \<in> set (take landed ?items).
           (item_groupId it = None \<or> item_groupId it = Some role_name) \<and> item_userId it = None"
          using items by (meson in_set_takeD)
        ultimately show ?thesis using st1 by auto
      qed
    qed
  qed
qed

lemma store_validate_role: "store (snd (validate_constraint_role_exists e g st)) = store st"
  by (simp add: validate_constraint_role_exists_def log_warning_def
      split: option.splits lookup.splits)

lemma import_items:
  assumes "map_of (variableValues t) ''ROLE_NAME'' = Some role_name"
  shows "\<exists>new. store (snd (import_template_constraints e t c st)) = store st @ new \<and>
     (\<forall>it \<in> set new.
        (item_groupId it = None \<or> item_groupId it = Some role_name) \<and> item_userId it = None)"
proof -
  let ?sub = "substitute_variables (map c_dict (constraints t)) (variableValues t)"
  show ?thesis
  proof (cases "find_unreplaced_variables (word_char e) ?sub \<noteq> {}")
    case True
    with assms have "snd (import_template_constraints e t c st) = st"
      by (simp add: import_template_constraints_def Let_def)
    then show ?thesis by simp
  next
    case False
    obtain b st1 where v: "validate_constraint_role_exists e role_name st = (b, st1)"
      by (cases "validate_constraint_role_exists e role_name st")
    define st2 where "st2 = (if \<not> b then log_warning (role_missing_warning role_name) st1 else st1)"
    have s2: "store st2 = store st"
      using store_validate_role [of e role_name st] v
      by (simp add: st2_def log_warning_def)
    obtain res st3 where cr: "create_constraints e role_name c ?sub [] st2 = (res, st3)"
      by (cases "create_constraints e role_name c ?sub [] st2")
    from create_constraints_items [OF cr] s2 obtain new where
      new: "store st3 = store st @ new"
        "\<forall>it \<in> set new.
          (item_groupId it = None \<or> item_groupId it = Some role_name) \<and> item_userId it = None"
      by auto
    have "store (snd (import_template_constraints e t c st)) = store st3"
      using assms False v cr
      by (cases res) (simp_all add: import_template_constraints_def Let_def st2_def)
    with new show ?thesis by auto
  qed
qed

text \<open>
  C9. Every entry of the \<^verbatim>\<open>groupPermissions\<close> list that \<^verbatim>\<open>build_constraint_data\<close> generates
  has the role name it was given as its \<^verbatim>\<open>groupId\<close>, and the import gives it the one value of
  \<^verbatim>\<open>variableValues['ROLE_NAME']\<close> for every constraint of the template: each item the import
  adds to the table is either the bare item of a constraint without permissions or the
  group item of that role, and none is bound to another group or to a user.
\<close>

theorem import_binds_one_role:
  "(build_constraint_data e constraint role_name c st = (Inr cd, st') \<longrightarrow>
      (\<forall>gp \<in> set (groupPermissions cd). groupId gp = Some role_name)) \<and>
   (map_of (variableValues t) ''ROLE_NAME'' = Some role_name \<longrightarrow>
      (\<exists>new. store (snd (import_template_constraints e t c st)) = store st @ new \<and>
         (\<forall>it \<in> set new.
            (item_groupId it = None \<or> item_groupId it = Some role_name) \<and>
            item_userId it = None)))"
  using build_constraint_data_permissions [of e constraint role_name c st cd st']
    import_items [of t role_name e c st]
  by blast


lemma build_substituted_constraint:
  "\<exists>cd st'. build_constraint_data sample_env substituted_constraint ''db-admin'' alice
      empty_state = (Inr cd, st') \<and> length (groupPermissions cd) = 2"
  by (simp add: build_constraint_data_def substituted_constraint_def py_get_def Let_def
      empty_state_def)

theorem import_binds_one_role_witness:
  "map_of (variableValues scenario_request) ''ROLE_NAME'' = Some ''db-admin'' \<and>
   (\<exists>cd st'. build_constraint_data sample_env substituted_constraint ''db-admin'' alice
      empty_state = (Inr cd, st') \<and> length (groupPermissions cd) = 2 \<and>
      list_all (\<lambda>gp. groupId gp = Some ''db-admin'') (groupPermissions cd)) \<and>
   list_all (\<lambda>it. (item_groupId it = None \<or> item_groupId it = Some ''db-admin'') \<and>
                  item_userId it = None)
     (store (snd (import_template_constraints sample_env scenario_request alice empty_state)))"
proof -
  have r: "map_of (variableValues scenario_request) ''ROLE_NAME'' = Some ''db-admin''"
    by (simp add: scenario_request_def sample_request_def)
  obtain cd st' where b: "build_constraint_data sample_env substituted_constraint ''db-admin''
      alice empty_state = (Inr cd, st')" and l: "length (groupPermissions cd) = 2"
    using build_substituted_constraint by blast
  note t = import_binds_one_role [of sample_env substituted_constraint "''db-admin''" alice
      empty_state cd st' scenario_request]
  from t b have "\<forall>gp \<in> set (groupPermissions cd). groupId gp = Some ''db-admin''"
    by blast
  then have g: "list_all (\<lambda>gp. groupId gp = Some ''db-admin'') (groupPermissions cd)"
    by (simp add: list_all_iff)
  from t r obtain new where
    "store (snd (import_template_constraints sample_env scenario_request alice empty_state)) =
       store empty_state @ new"
    "\<forall>it \<in> set new.
       (item_groupId it = None \<or> item_groupId it = Some ''db-admin'') \<and> item_userId it = None"
    by blast
  then have "list_all (\<lambda>it. (item_groupId it = None \<or> item_groupId it = Some ''db-admin'') \<and>
                  item_userId it = None)
     (store (snd (import_template_constraints sample_env scenario_request alice empty_state)))"
    by (simp add: list_all_iff empty_state_def)
  with r b l g show ?thesis by blast
qed

section \<open>The role check is soft\<close>











lemma transform_nonempty: "transform_to_denormalized_format e now cd \<noteq> []"
  by (simp add: transform_unfold)






section \<open>Unresolved variables stop the import\<close>

lemma sublist_in_context: "sublist n s \<Longrightarrow> sublist n (p @ s @ q)"
proof -
  assume "sublist n s"
  then obtain ps ss where "s = ps @ n @ ss"
    unfolding sublist_def by blast
  then have "p @ s @ q = (p @ ps) @ n @ (ss @ q)" by simp
  then show ?thesis
    unfolding sublist_def by blast
qed

lemma sublist_py_join: "n \<in> set xs \<Longrightarrow> sublist n (py_join sep xs)"
proof (induction sep xs rule: py_join.induct)
  case (1 sep)
  then show ?case by simp
next
  case (2 sep x)
  then show ?case by simp
next
  case (3 sep x y ys)
  show ?case
  proof (cases "n = x")
    case True
    then show ?thesis by simp
  next
    case False
    with 3 have "sublist n (py_join sep (y # ys))" by simp
    then have "sublist n ((x @ sep) @ py_join sep (y # ys) @ [])"
      by (rule sublist_in_context)
    then show ?thesis by simp
  qed
qed

lemma finite_unreplaced: "finite (find_unreplaced_variables w cs)"
  unfolding find_unreplaced_variables_def by (rule finite_set)

lemma unreplaced_message_names:
  assumes "n \<in> find_unreplaced_variables w cs"
  shows "sublist n (unreplaced_message (find_unreplaced_variables w cs))"
proof -
  let ?U = "find_unreplaced_variables w cs"
  from assms have "n \<in> set (sorted_list_of_set ?U)"
    by (simp add: finite_unreplaced)
  then have "sublist n (py_join '', '' (sorted_list_of_set ?U))"
    by (rule sublist_py_join)
  then show ?thesis
    unfolding unreplaced_message_def by (rule sublist_in_context)
qed

lemma import_unresolved:
  "map_of (variableValues t) ''ROLE_NAME'' = Some role_name \<Longrightarrow>
   find_unreplaced_variables (word_char e)
     (substitute_variables (map c_dict (constraints t)) (variableValues t)) \<noteq> {} \<Longrightarrow>
   import_template_constraints e t c st =
     (Inl (VAMSGeneralErrorResponse
        (unreplaced_message (find_unreplaced_variables (word_char e)
           (substitute_variables (map c_dict (constraints t)) (variableValues t))))), st)"
  by (simp add: import_template_constraints_def Let_def)

lemma check_variables_keeps:
  "check_variables ds vs = Inr vs' \<Longrightarrow> map_of vs k = Some v \<Longrightarrow> map_of vs' k = Some v"
proof (induction ds arbitrary: vs)
  case Nil
  then show ?case by simp
next
  case (Cons d ds)
  then show ?case
    by (auto split: if_splits option.splits simp: map_add_Some_iff)
qed

lemma validate_gives_role_name:
  "validate_template_import k values = Inr t \<Longrightarrow>
   \<exists>role_name. map_of (variableValues t) ''ROLE_NAME'' = Some role_name"
  by (auto simp: validate_template_import_def Let_def
      split: option.splits prod.splits bool.splits sum.splits if_splits
      dest: check_variables_keeps)

text \<open>
  C3. When the scan finds unreplaced \<^verbatim>\<open>{{NAME}}\<close> tokens after substitution, the import
  raises \<^verbatim>\<open>VAMSGeneralErrorResponse\<close> and the state is the one it started in, so nothing is
  written. The message lists the names found, sorted and each once, separated by a comma,
  and so contains every one of them. The handler answers a validated request of this kind
  with that general error and leaves the table as it was.
\<close>

theorem unresolved_variables_fail_import:
  "map_of (variableValues t) ''ROLE_NAME'' = Some role_name \<Longrightarrow>
   find_unreplaced_variables (word_char e)
     (substitute_variables (map c_dict (constraints t)) (variableValues t)) = U \<Longrightarrow>
   U \<noteq> {} \<Longrightarrow>
   import_template_constraints e t c st =
     (Inl (VAMSGeneralErrorResponse (unreplaced_message U)), st) \<and>
   unreplaced_message U =
     ''Unreplaced template variables found after substitution: '' @
     py_join '', '' (sorted_list_of_set U) @
     ''. Provide values for these in variableValues.'' \<and>
   sorted (sorted_list_of_set U) \<and> distinct (sorted_list_of_set U) \<and>
   set (sorted_list_of_set U) = U \<and>
   (\<forall>n \<in> U. sublist n (unreplaced_message U)) \<and>
   (request_tokens ev \<noteq> [] \<and> enforceAPI ev \<and> http_method ev = ''POST'' \<and>
    event_body ev = Parsed values \<and> validate_template_import k values = Inr t \<longrightarrow>
      fst (lambda_handler e k ev st) = General_error (unreplaced_message U) \<and>
      store (snd (lambda_handler e k ev st)) = store st)"
proof -
  assume rn: "map_of (variableValues t) ''ROLE_NAME'' = Some role_name"
    and U: "find_unreplaced_variables (word_char e)
     (substitute_variables (map c_dict (constraints t)) (variableValues t)) = U"
    and ne: "U \<noteq> {}"
  have fin: "finite U"
    using U finite_unreplaced by blast
  have imp: "import_template_constraints e t c' st =
     (Inl (VAMSGeneralErrorResponse (unreplaced_message U)), st)" for c'
    using import_unresolved [OF rn, of e c' st] U ne by simp
  have names: "\<forall>n \<in> U. sublist n (unreplaced_message U)"
    using unreplaced_message_names U by blast
  have h: "fst (lambda_handler e k ev st) = General_error (unreplaced_message U) \<and>
      store (snd (lambda_handler e k ev st)) = store st"
    if "request_tokens ev \<noteq> []" "enforceAPI ev" "http_method ev = ''POST''"
       "event_body ev = Parsed values" "validate_template_import k values = Inr t"
    using that by (simp add: handler_on_parsed imp log_exception_def)
  from imp [of c] names h fin show ?thesis
    by (simp add: unreplaced_message_def)
qed

lemma unresolved_request_valid:
  "validate_template_import sample_common unresolved_request = Inr unresolved_request"
  by (simp add: validate_template_import_def unresolved_request_def sample_request_def
      sample_template_constraint_def sample_common_def or_empty_def)

lemma unresolved_request_scan:
  "find_unreplaced_variables ascii_word_char
     (substitute_variables (map c_dict (constraints unresolved_request))
        (variableValues unresolved_request)) = {''ZONE'', ''DATABASE_ID''}"
  by code_simp

lemma unresolved_names_sorted:
  "sorted_list_of_set {''ZONE'', ''DATABASE_ID''} = [''DATABASE_ID'', ''ZONE'']"
  by code_simp

theorem unresolved_variables_fail_import_witness:
  "map_of (variableValues unresolved_request) ''ROLE_NAME'' = Some ''db-admin'' \<and>
   find_unreplaced_variables (word_char sample_env)
     (substitute_variables (map c_dict (constraints unresolved_request))
        (variableValues unresolved_request)) = {''ZONE'', ''DATABASE_ID''} \<and>
   validate_template_import sample_common unresolved_request = Inr unresolved_request \<and>
   fst (lambda_handler sample_env sample_common (sample_event unresolved_request) empty_state) =
     General_error
       (''Unreplaced template variables found after substitution: DATABASE_ID, ZONE. '' @
        ''Provide values for these in variableValues.'') \<and>
   store (snd (lambda_handler sample_env sample_common (sample_event unresolved_request)
     empty_state)) = []"
proof -
  have r: "map_of (variableValues unresolved_request) ''ROLE_NAME'' = Some ''db-admin''"
    by (simp add: unresolved_request_def sample_request_def)
  have wc: "word_char sample_env = ascii_word_char"
    by (simp add: sample_env_def)
  have sc: "find_unreplaced_variables (word_char sample_env)
     (substitute_variables (map c_dict (constraints unresolved_request))
        (variableValues unresolved_request)) = {''ZONE'', ''DATABASE_ID''}"
    unfolding wc by (rule unresolved_request_scan)
  have ne: "{''ZONE'', ''DATABASE_ID''} \<noteq> ({} :: string set)"
    by simp
  have ev: "request_tokens (sample_event unresolved_request) \<noteq> [] \<and>
     enforceAPI (sample_event unresolved_request) \<and>
     http_method (sample_event unresolved_request) = ''POST'' \<and>
     event_body (sample_event unresolved_request) = Parsed unresolved_request"
    by (simp add: sample_event_def)
  note t = unresolved_variables_fail_import [OF r sc ne,
      of alice empty_state "sample_event unresolved_request" unresolved_request sample_common]
  from t ev unresolved_request_valid
  have "fst (lambda_handler sample_env sample_common (sample_event unresolved_request)
          empty_state) = General_error (unreplaced_message {''ZONE'', ''DATABASE_ID''}) \<and>
      store (snd (lambda_handler sample_env sample_common (sample_event unresolved_request)
          empty_state)) = store empty_state"
    by blast
  then show ?thesis
    using r sc unresolved_request_valid
    by (simp add: unreplaced_message_def unresolved_names_sorted empty_state_def)
qed

section \<open>A storage failure in the middle of a template\<close>

lemma create_constraints_append:
  "create_constraints e role_name c (cs1 @ cs2) ids st =
     (case create_constraints e role_name c cs1 ids st of
        (Inl x, st1) \<Rightarrow> (Inl x, st1)
      | (Inr ids1, st1) \<Rightarrow> create_constraints e role_name c cs2 ids1 st1)"
proof (induction cs1 arbitrary: ids st)
  case Nil
  show ?case by simp
next
  case (Cons constraint cs1)
  show ?case
    by (simp add: Cons.IH Let_def split: prod.splits sum.splits write_outcome.splits)
qed

lemma import_unfold:
  assumes "map_of (variableValues t) ''ROLE_NAME'' = Some role_name"
    and "find_unreplaced_variables (word_char e)
     (substitute_variables (map c_dict (constraints t)) (variableValues t)) = {}"
    and "create_constraints e role_name c
     (substitute_variables (map c_dict (constraints t)) (variableValues t)) []
     (after_role_check e role_name st) = (Inl x, st')"
  shows "import_template_constraints e t c st = (Inl x, st')"
proof -
  obtain b s1 where v: "validate_constraint_role_exists e role_name st = (b, s1)"
    by (cases "validate_constraint_role_exists e role_name st")
  then have "after_role_check e role_name st =
      (if \<not> b then log_warning (role_missing_warning role_name) s1 else s1)"
    by (simp add: after_role_check_def)
  with assms v show ?thesis
    by (cases b) (simp_all add: import_template_constraints_def Let_def)
qed

lemma store_after_role_check: "store (after_role_check e role_name st) = store st"
proof -
  obtain b s1 where v: "validate_constraint_role_exists e role_name st = (b, s1)"
    by (cases "validate_constraint_role_exists e role_name st")
  with store_validate_role [of e role_name st] show ?thesis
    by (simp add: after_role_check_def log_warning_def)
qed

lemma create_constraints_fails_at:
  assumes before: "create_constraints e role_name c cs1 ids st = (Inr ids1, st1)"
    and build: "build_constraint_data e constraint role_name c st1 = (Inr cd, st1')"
    and fails: "batch_writer e (batches st1') = WriteFails landed"
  shows "\<exists>st'. create_constraints e role_name c (cs1 @ constraint # cs2) ids st =
           (Inl StorageError, st') \<and>
         store st' = store st1 @
           take landed (transform_to_denormalized_format e (utcnow e (Suc (clock_calls st1'))) cd)"
proof -
  have "store st1' = store st1"
    using build
    by (auto simp: build_constraint_data_def Let_def
        split: sum.splits prod.splits option.splits)
  with before build fails show ?thesis
    by (simp add: create_constraints_append Let_def)
qed


lemma create_constraints_success:
  "create_constraints e role_name c cs ids st = (Inr ids', st') \<Longrightarrow>
   length ids' = length ids + length cs \<and>
   prefix (store st) (store st') \<and>
   length (store st) + length cs \<le> length (store st')"
proof (induction cs arbitrary: ids st)
  case Nil
  then show ?case by simp
next
  case (Cons constraint cs)
  obtain r st1 where b: "build_constraint_data e constraint role_name c st = (r, st1)"
    by (cases "build_constraint_data e constraint role_name c st")
  with Cons.prems obtain cd where r: "r = Inr cd"
    by (cases r) simp_all
  have s1: "store st1 = store st"
    using b r
    by (auto simp: build_constraint_data_def Let_def
        split: sum.splits prod.splits option.splits)
  let ?items = "transform_to_denormalized_format e (utcnow e (Suc (clock_calls st1))) cd"
  let ?st2 = "st1\<lparr>clock_calls := clock_calls st1 + 2, batches := Suc (batches st1),
                 store := store st1 @ ?items\<rparr>"
  from Cons.prems b r have w: "batch_writer e (batches st1) = WriteOk"
    by (cases "batch_writer e (batches st1)") (simp_all add: Let_def)
  with Cons.prems b r
  have "create_constraints e role_name c cs (ids @ [identifier' cd]) ?st2 = (Inr ids', st')"
    by (simp add: Let_def)
  from Cons.IH [OF this]
  have l: "length ids' = length (ids @ [identifier' cd]) + length cs"
    and p: "prefix (store ?st2) (store st')"
    and g: "length (store ?st2) + length cs \<le> length (store st')"
    by simp_all
  have "?items \<noteq> []"
    by (rule transform_nonempty)
  then have "1 \<le> length ?items"
    by (cases ?items) simp_all
  with g s1 have "length (store st) + length (constraint # cs) \<le> length (store st')"
    by simp
  moreover from p s1 have "prefix (store st) (store st')"
    by (auto simp: prefix_def)
  ultimately show ?case using l by simp
qed

text \<open>
  C6, as stated, says that a failed storage write surfaces as a general error and that
  a summary reports the constraints written before it. In the run below the table
  refuses the batch of the second of two constraints: the handler answers with the
  internal error, which carries no summary, and the item of the first constraint is in
  the table.
\<close>

theorem storage_failure_counterexample:
  "validate_template_import sample_common two_constraint_request = Inr two_constraint_request \<and>
   batch_writer failing_env 0 = WriteOk \<and> batch_writer failing_env 1 = WriteFails 0 \<and>
   fst (lambda_handler failing_env sample_common (sample_event two_constraint_request)
          empty_state) = Internal_error \<and>
   map constraintId
     (store (snd (lambda_handler failing_env sample_common (sample_event two_constraint_request)
        empty_state))) = [''uuid-0#group#db-admin'']"
  by code_simp


text \<open>
  C6, amended. If the storage write for the N-th constraint of a template fails, the
  exception of the table client leaves the import, and the handler's catch-all answers
  with the internal error, without a summary. The table then holds what it held after
  the constraints 1..N-1 were written, followed by the items of the N-th batch that
  landed before the failure: the items written for the constraints 1..N-1, at least one
  for each, remain, and nothing is deleted.
\<close>

theorem storage_failure_keeps_earlier_constraints:
  "request_tokens ev \<noteq> [] \<Longrightarrow> enforceAPI ev \<Longrightarrow> http_method ev = ''POST'' \<Longrightarrow>
   event_body ev = Parsed values \<Longrightarrow>
   validate_template_import k values = Inr t \<Longrightarrow>
   map_of (variableValues t) ''ROLE_NAME'' = Some role_name \<Longrightarrow>
   find_unreplaced_variables (word_char e)
     (substitute_variables (map c_dict (constraints t)) (variableValues t)) = {} \<Longrightarrow>
   substitute_variables (map c_dict (constraints t)) (variableValues t) =
     earlier @ constraint # later \<Longrightarrow>
   create_constraints e role_name \<lparr>tokens = request_tokens ev\<rparr> earlier []
     (after_role_check e role_name st) = (Inr ids_before, st_before) \<Longrightarrow>
   build_constraint_data e constraint role_name \<lparr>tokens = request_tokens ev\<rparr> st_before =
     (Inr cd, st_built) \<Longrightarrow>
   batch_writer e (batches st_built) = WriteFails landed \<Longrightarrow>
   fst (lambda_handler e k ev st) = Internal_error \<and>
   store (snd (lambda_handler e k ev st)) =
     store st_before @
     take landed (transform_to_denormalized_format e (utcnow e (Suc (clock_calls st_built))) cd) \<and>
   prefix (store st) (store st_before) \<and>
   length ids_before = length earlier \<and>
   length (store st) + length earlier \<le> length (store st_before)"
proof -
  assume ev: "request_tokens ev \<noteq> []" "enforceAPI ev" "http_method ev = ''POST''"
    "event_body ev = Parsed values"
    and v: "validate_template_import k values = Inr t"
    and rn: "map_of (variableValues t) ''ROLE_NAME'' = Some role_name"
    and un: "find_unreplaced_variables (word_char e)
     (substitute_variables (map c_dict (constraints t)) (variableValues t)) = {}"
    and sub: "substitute_variables (map c_dict (constraints t)) (variableValues t) =
     earlier @ constraint # later"
    and before: "create_constraints e role_name \<lparr>tokens = request_tokens ev\<rparr> earlier []
     (after_role_check e role_name st) = (Inr ids_before, st_before)"
    and build: "build_constraint_data e constraint role_name \<lparr>tokens = request_tokens ev\<rparr> st_before =
     (Inr cd, st_built)"
    and fails: "batch_writer e (batches st_built) = WriteFails landed"
  let ?landed = "take landed
     (transform_to_denormalized_format e (utcnow e (Suc (clock_calls st_built))) cd)"
  from create_constraints_fails_at [OF before build fails, of later]
  obtain st' where
    cr: "create_constraints e role_name \<lparr>tokens = request_tokens ev\<rparr>
           (earlier @ constraint # later) [] (after_role_check e role_name st) =
           (Inl StorageError, st')"
    and st': "store st' = store st_before @ ?landed"
    by blast
  from cr sub have "create_constraints e role_name \<lparr>tokens = request_tokens ev\<rparr>
           (substitute_variables (map c_dict (constraints t)) (variableValues t)) []
           (after_role_check e role_name st) = (Inl StorageError, st')"
    by simp
  from import_unfold [OF rn un this]
  have "import_template_constraints e t \<lparr>tokens = request_tokens ev\<rparr> st =
          (Inl StorageError, st')" .
  with ev v have "lambda_handler e k ev st = handle_exception StorageError st'"
    by (simp add: handler_on_parsed)
  with st' have h: "fst (lambda_handler e k ev st) = Internal_error \<and>
      store (snd (lambda_handler e k ev st)) = store st_before @ ?landed"
    by (simp add: log_exception_def)
  from create_constraints_success [OF before]
  have "length ids_before = length earlier" "prefix (store st) (store st_before)"
    "length (store st) + length earlier \<le> length (store st_before)"
    by (simp_all add: store_after_role_check)
  with h show ?thesis by simp
qed

lemma two_constraint_request_valid:
  "validate_template_import sample_common two_constraint_request = Inr two_constraint_request"
  by (simp add: validate_template_import_def two_constraint_request_def sample_request_def
      sample_template_constraint_def sample_common_def or_empty_def)

lemma two_constraint_request_substituted:
  "substitute_variables (map c_dict (constraints two_constraint_request))
     (variableValues two_constraint_request) =
   [substituted_sample ''db-admin-read''] @ substituted_sample ''db-admin-write'' # []"
  by code_simp

lemma two_constraint_request_scan:
  "find_unreplaced_variables ascii_word_char
     (substitute_variables (map c_dict (constraints two_constraint_request))
        (variableValues two_constraint_request)) = {}"
  by code_simp

lemma first_constraint_written:
  "fst (create_constraints failing_env ''db-admin'' alice [substituted_sample ''db-admin-read'']
          [] (after_role_check failing_env ''db-admin'' empty_state)) = Inr [''uuid-0''] \<and>
   batches (snd (create_constraints failing_env ''db-admin'' alice
          [substituted_sample ''db-admin-read''] []
          (after_role_check failing_env ''db-admin'' empty_state))) = 1 \<and>
   map constraintId (store (snd (create_constraints failing_env ''db-admin'' alice
          [substituted_sample ''db-admin-read''] []
          (after_role_check failing_env ''db-admin'' empty_state)))) =
     [''uuid-0#group#db-admin'']"
  by code_simp

theorem storage_failure_keeps_earlier_constraints_witness:
  "validate_template_import sample_common two_constraint_request = Inr two_constraint_request \<and>
   batch_writer failing_env 1 = WriteFails 0 \<and>
   fst (lambda_handler failing_env sample_common (sample_event two_constraint_request)
          empty_state) = Internal_error \<and>
   map constraintId
     (store (snd (lambda_handler failing_env sample_common (sample_event two_constraint_request)
        empty_state))) = [''uuid-0#group#db-admin'']"
proof -
  let ?ev = "sample_event two_constraint_request"
  have ev: "request_tokens ?ev \<noteq> []" "enforceAPI ?ev" "http_method ?ev = ''POST''"
    "event_body ?ev = Parsed two_constraint_request"
    by (simp_all add: sample_event_def)
  have cl: "\<lparr>tokens = request_tokens ?ev\<rparr> = alice"
    by (simp add: sample_event_def alice_def)
  have rn: "map_of (variableValues two_constraint_request) ''ROLE_NAME'' = Some ''db-admin''"
    by (simp add: two_constraint_request_def sample_request_def)
  have wc: "word_char failing_env = ascii_word_char"
    by (simp add: failing_env_def sample_env_def)
  have sc: "find_unreplaced_variables (word_char failing_env)
     (substitute_variables (map c_dict (constraints two_constraint_request))
        (variableValues two_constraint_request)) = {}"
    unfolding wc by (rule two_constraint_request_scan)
  define X where "X = create_constraints failing_env ''db-admin'' alice
      [substituted_sample ''db-admin-read''] []
      (after_role_check failing_env ''db-admin'' empty_state)"
  have X: "X = (Inr [''uuid-0''], snd X)" and bX: "batches (snd X) = 1"
    and sX: "map constraintId (store (snd X)) = [''uuid-0#group#db-admin'']"
    using first_constraint_written unfolding X_def [symmetric]
    by (simp_all add: prod_eq_iff)
  define Y where "Y = build_constraint_data failing_env (substituted_sample ''db-admin-write'')
      ''db-admin'' alice (snd X)"
  have "\<exists>cd. fst Y = Inr cd \<and> batches (snd Y) = batches (snd X)"
    unfolding Y_def
    by (simp add: build_constraint_data_def substituted_sample_def py_get_def Let_def)
  then obtain cd where Y: "Y = (Inr cd, snd Y)" and bY: "batches (snd Y) = 1"
    using bX by (auto simp: prod_eq_iff)
  have f: "batch_writer failing_env (batches (snd Y)) = WriteFails 0"
    by (simp add: bY failing_env_def)
  have f1: "batch_writer failing_env 1 = WriteFails 0"
    by (simp add: failing_env_def)
  note t = storage_failure_keeps_earlier_constraints
      [where e = failing_env and st = empty_state and ids_before = "[''uuid-0'']"
         and st_before = "snd X" and cd = cd and st_built = "snd Y" and landed = 0,
       OF ev two_constraint_request_valid rn sc
         two_constraint_request_substituted]
  from t X Y f have "fst (lambda_handler failing_env sample_common ?ev empty_state) =
      Internal_error \<and>
    store (snd (lambda_handler failing_env sample_common ?ev empty_state)) = store (snd X) @
     take 0 (transform_to_denormalized_format failing_env
        (utcnow failing_env (Suc (clock_calls (snd Y)))) cd)"
    unfolding cl X_def Y_def by simp
  with sX two_constraint_request_valid f1 show ?thesis by simp
qed

section \<open>Literal replacement\<close>

lemma token_not_Nil: "token n \<noteq> []"
  by (simp add: token_def)

lemma py_replace_Cons:
  "old \<noteq> [] \<Longrightarrow> py_replace old new (c # cs) =
     (if prefix old (c # cs) then new @ py_replace old new (drop (length old) (c # cs))
      else c # py_replace old new cs)"
  by simp

lemma py_replace_Nil: "old \<noteq> [] \<Longrightarrow> py_replace old new [] = []"
  by simp

text \<open>Where \<open>old\<close> occurs, the result holds \<open>new\<close>.\<close>

lemma py_replace_contains_new:
  "old \<noteq> [] \<Longrightarrow> sublist old s \<Longrightarrow> sublist new (py_replace old new s)"
proof (induction s)
  case Nil
  then show ?case by simp
next
  case (Cons c cs)
  show ?case
  proof (cases "prefix old (c # cs)")
    case True
    with Cons.prems show ?thesis by simp
  next
    case False
    with Cons.prems have "sublist old cs"
      by (simp add: sublist_Cons_right)
    with Cons have "sublist new (py_replace old new cs)" by simp
    then have "sublist new ([c] @ py_replace old new cs @ [])"
      by (rule sublist_in_context)
    with False Cons.prems show ?thesis by simp
  qed
qed

text \<open>Text in which no occurrence of \<open>old\<close> starts is copied.\<close>

lemma py_replace_skip:
  "old \<noteq> [] \<Longrightarrow> \<forall>j < length xs. \<not> prefix old (drop j xs @ ys) \<Longrightarrow>
   py_replace old new (xs @ ys) = xs @ py_replace old new ys"
proof (induction xs)
  case Nil
  show ?case by simp
next
  case (Cons x xs)
  from Cons.prems(2) have "\<not> prefix old (drop 0 (x # xs) @ ys)" by blast
  then have no: "\<not> prefix old (x # xs @ ys)" by simp
  have "\<forall>j < length xs. \<not> prefix old (drop j xs @ ys)"
  proof (intro allI impI)
    fix j assume "j < length xs"
    then have "Suc j < length (x # xs)" by simp
    with Cons.prems(2) have "\<not> prefix old (drop (Suc j) (x # xs) @ ys)" by blast
    then show "\<not> prefix old (drop j xs @ ys)" by simp
  qed
  with Cons have "py_replace old new (xs @ ys) = xs @ py_replace old new ys" by simp
  with no Cons.prems(1) show ?case by simp
qed

text \<open>
  An occurrence of \<open>t\<close> survives the replacement of \<open>old\<close> when neither text can start
  inside an occurrence of the other.
\<close>

lemma py_replace_preserves:
  assumes old: "old \<noteq> []"
    and in_old: "\<And>i rest. i < length old \<Longrightarrow> \<not> prefix t (drop i old @ rest)"
    and in_t: "\<And>j rest. 0 < j \<Longrightarrow> j < length t \<Longrightarrow> \<not> prefix old (drop j t @ rest)"
  shows "sublist t s \<Longrightarrow> sublist t (py_replace old new s)"
proof (induction "length s" arbitrary: s rule: less_induct)
  case less
  show ?case
  proof (cases s)
    case Nil
    with less.prems show ?thesis by simp
  next
    case (Cons c cs)
    show ?thesis
    proof (cases "prefix old s")
      case True
      then obtain rest where s: "s = old @ rest"
        by (auto simp: prefix_def)
      from less.prems obtain ps ss where d: "s = ps @ t @ ss"
        unfolding sublist_def by blast
      have "\<not> length ps < length old"
      proof
        assume l: "length ps < length old"
        have "drop (length ps) s = t @ ss"
          using d by simp
        moreover have "drop (length ps) s = drop (length ps) old @ rest"
          using s l by simp
        ultimately have "prefix t (drop (length ps) old @ rest)"
          by (simp add: prefix_def)
        with in_old [OF l] show False by blast
      qed
      then have "drop (length old) s = drop (length old) ps @ t @ ss"
        using d by simp
      with s have "rest = drop (length old) ps @ t @ ss"
        by simp
      then have "sublist t rest"
        unfolding sublist_def by blast
      moreover have "length rest < length s"
        using s old by simp
      ultimately have "sublist t (py_replace old new rest)"
        by (rule less.hyps [rotated])
      then have "sublist t (new @ py_replace old new rest @ [])"
        by (rule sublist_in_context)
      moreover have "py_replace old new s = new @ py_replace old new rest"
      proof -
        have "drop (length old) (c # cs) = rest"
          using s Cons by (metis append_eq_conv_conj)
        moreover have "prefix old (c # cs)"
          using True Cons by simp
        ultimately show ?thesis
          using old Cons by simp
      qed
      ultimately show ?thesis by simp
    next
      case False
      from less.prems Cons have "prefix t (c # cs) \<or> sublist t cs"
        by (simp add: sublist_Cons_right)
      then show ?thesis
      proof
        assume "sublist t cs"
        moreover have "length cs < length s"
          using Cons by simp
        ultimately have "sublist t (py_replace old new cs)"
          by (rule less.hyps [rotated])
        then have "sublist t ([c] @ py_replace old new cs @ [])"
          by (rule sublist_in_context)
        with False Cons old show ?thesis by simp
      next
        assume "prefix t (c # cs)"
        then obtain ys where s: "s = t @ ys"
          using Cons by (auto simp: prefix_def)
        have "\<forall>j < length t. \<not> prefix old (drop j t @ ys)"
        proof (intro allI impI)
          fix j assume j: "j < length t"
          show "\<not> prefix old (drop j t @ ys)"
          proof (cases "j = 0")
            case True
            with False s show ?thesis by simp
          next
            case False
            with j in_t show ?thesis by simp
          qed
        qed
        with old have "py_replace old new (t @ ys) = t @ py_replace old new ys"
          by (rule py_replace_skip)
        with s show ?thesis by simp
      qed
    qed
  qed
qed

subsection \<open>Tokens of names without braces do not overlap\<close>

lemma brace_free_name_eq:
  "brace_free x \<Longrightarrow> brace_free y \<Longrightarrow> prefix (x @ ''}}'') (y @ ''}}'' @ rest) \<Longrightarrow> x = y"
proof (induction x arbitrary: y)
  case Nil
  then show ?case
    by (cases y) (auto simp: brace_free_def)
next
  case (Cons a x)
  show ?case
  proof (cases y)
    case Nil
    with Cons.prems show ?thesis
      by (auto simp: brace_free_def)
  next
    case (Cons b y')
    with Cons.prems have "a = b" "brace_free x" "brace_free y'"
      "prefix (x @ ''}}'') (y' @ ''}}'' @ rest)"
      by (auto simp: brace_free_def)
    with Cons.IH Cons show ?thesis by blast
  qed
qed

lemma token_starts_only_at_token:
  assumes x: "brace_free x" and y: "brace_free y"
    and i: "i < length (token y)"
    and p: "prefix (token x) (drop i (token y) @ rest)"
  shows "i = 0 \<and> x = y"
proof -
  have tx: "token x = CHR ''{'' # CHR ''{'' # x @ ''}}''"
    by (simp add: token_def)
  have ty: "token y = CHR ''{'' # CHR ''{'' # y @ ''}}''"
    by (simp add: token_def)
  consider "i = 0" | "i = 1" | "2 \<le> i" by linarith
  then show ?thesis
  proof cases
    case 1
    with p have "prefix (x @ ''}}'') (y @ ''}}'' @ rest)"
      by (simp add: tx ty)
    with x y have "x = y" by (rule brace_free_name_eq)
    with 1 show ?thesis by simp
  next
    case 2
    with p have "prefix (CHR ''{'' # x @ ''}}'') (y @ ''}}'' @ rest)"
      by (simp add: tx ty)
    with y have False
      by (cases y) (auto simp: brace_free_def)
    then show ?thesis ..
  next
    case 3
    define zs where "zs = drop (i - 2) (y @ ''}}'')"
    from 3 have d: "drop i (token y) = zs"
      by (simp add: ty zs_def drop_Cons' numeral_2_eq_2)
    from 3 i have "i - 2 < length (y @ ''}}'')"
      by (simp add: ty)
    then have "zs \<noteq> []" and "set zs \<subseteq> set (y @ ''}}'')"
      by (auto simp: zs_def dest: in_set_dropD)
    then obtain z zs' where z: "zs = z # zs'" and "z \<in> set (y @ ''}}'')"
      by (cases zs) auto
    with y have "z \<noteq> CHR ''{''"
      by (auto simp: brace_free_def)
    with p d z have False
      by (simp add: tx)
    then show ?thesis ..
  qed
qed

lemma py_replace_keeps_other_token:
  assumes "brace_free b" and "brace_free n" and "n \<noteq> b" and "sublist (token b) s"
  shows "sublist (token b) (py_replace (token n) v s)"
proof (rule py_replace_preserves)
  show "token n \<noteq> []" by (rule token_not_Nil)
next
  fix i rest assume "i < length (token n)"
  with assms token_starts_only_at_token [of b n i rest]
  show "\<not> prefix (token b) (drop i (token n) @ rest)" by blast
next
  fix j rest assume "0 < j" "j < length (token b)"
  with assms token_starts_only_at_token [of n b j rest]
  show "\<not> prefix (token n) (drop j (token b) @ rest)" by blast
next
  show "sublist (token b) s" by fact
qed

lemma replace_in_string_append:
  "replace_in_string (vs @ ws) s = replace_in_string ws (replace_in_string vs s)"
  by (induction vs arbitrary: s) auto

lemma replace_in_string_keeps_token:
  "sublist (token b) s \<Longrightarrow> brace_free b \<Longrightarrow>
   \<forall>n \<in> fst ` set post. n \<noteq> b \<and> brace_free n \<Longrightarrow>
   sublist (token b) (replace_in_string post s)"
proof (induction post arbitrary: s)
  case Nil
  then show ?case by simp
next
  case (Cons nv post)
  obtain n v where nv: "nv = (n, v)" by (cases nv)
  with Cons.prems have "brace_free n" "n \<noteq> b" by auto
  with Cons.prems have "sublist (token b) (py_replace (token n) v s)"
    by (intro py_replace_keeps_other_token) auto
  with Cons nv show ?case by simp
qed

lemma sublist_trans: "sublist xs ys \<Longrightarrow> sublist ys zs \<Longrightarrow> sublist xs zs"
  using sublist_order.order_trans by blast


subsection \<open>What a substituted value is scanned for\<close>

text \<open>
  C4, as stated, says that a \<^verbatim>\<open>{{B}}\<close> brought in by the value of A stays in the output
  whether or not B has a value. The passes run one after the other over the whole string:
  when B is iterated after A, its pass replaces the \<^verbatim>\<open>{{B}}\<close> that A's value brought in.
\<close>

theorem substitution_rescans_counterexample:
  "map_of nested_later ''A'' = Some ''{{B}}'' \<and>
   sublist (token ''B'') ''{{B}}'' \<and>
   replace_in_string nested_later ''{{A}}'' = ''x'' \<and>
   \<not> sublist (token ''B'') (replace_in_string nested_later ''{{A}}'') \<and>
   substitute_variables [[(''name'', PStr ''{{A}}'')]] nested_later = [[(''name'', PStr ''x'')]]"
  by code_simp

text \<open>
  C4, amended. Substitution is one literal replacement pass per variable, in the
  iteration order of \<^verbatim>\<open>variableValues\<close>, each over the result of the pass before; within a
  pass the inserted value is not scanned. So if the value of A contains \<^verbatim>\<open>{{B}}\<close> and
  \<^verbatim>\<open>{{A}}\<close> occurs in the string when the pass of A runs, then \<^verbatim>\<open>{{B}}\<close> is still present
  in the output provided B is not among the variables iterated after A: B may have no
  value, be A itself, or be iterated before A. Names are taken without braces.
\<close>

theorem substituted_value_not_rescanned_by_earlier_passes:
  "sublist (token a) (replace_in_string pre s) \<Longrightarrow> sublist (token b) v \<Longrightarrow>
   brace_free b \<Longrightarrow> \<forall>n \<in> fst ` set post. n \<noteq> b \<and> brace_free n \<Longrightarrow>
   replace_in_string (pre @ (a, v) # post) s =
     replace_in_string post (py_replace (token a) v (replace_in_string pre s)) \<and>
   sublist (token b) (replace_in_string (pre @ (a, v) # post) s)"
proof -
  assume a: "sublist (token a) (replace_in_string pre s)" and b: "sublist (token b) v"
    and bf: "brace_free b" and post: "\<forall>n \<in> fst ` set post. n \<noteq> b \<and> brace_free n"
  have seq: "replace_in_string (pre @ (a, v) # post) s =
     replace_in_string post (py_replace (token a) v (replace_in_string pre s))"
    by (simp add: replace_in_string_append)
  have "sublist v (py_replace (token a) v (replace_in_string pre s))"
    using token_not_Nil a by (rule py_replace_contains_new)
  with b have "sublist (token b) (py_replace (token a) v (replace_in_string pre s))"
    by (rule sublist_trans)
  then have "sublist (token b)
     (replace_in_string post (py_replace (token a) v (replace_in_string pre s)))"
    using bf post by (rule replace_in_string_keeps_token)
  with seq show ?thesis by simp
qed

theorem substituted_value_not_rescanned_by_earlier_passes_witness:
  "nested_earlier = [(''B'', ''x'')] @ (''A'', ''{{B}}'') # [(''C'', ''y'')] \<and>
   sublist (token ''A'') (replace_in_string [(''B'', ''x'')] ''{{A}}'') \<and>
   sublist (token ''B'') ''{{B}}'' \<and> brace_free ''B'' \<and> brace_free ''C'' \<and>
   sublist (token ''B'') (replace_in_string nested_earlier ''{{A}}'') \<and>
   replace_in_string nested_earlier ''{{A}}'' = ''{{B}}''"
proof -
  have d: "nested_earlier = [(''B'', ''x'')] @ (''A'', ''{{B}}'') # [(''C'', ''y'')]"
    by (simp add: nested_earlier_def)
  have a: "sublist (token ''A'') (replace_in_string [(''B'', ''x'')] ''{{A}}'')"
    by code_simp
  have b: "sublist (token ''B'') ''{{B}}''"
    by code_simp
  have bf: "brace_free ''B''" "brace_free ''C''"
    by (simp_all add: brace_free_def)
  have post: "\<forall>n \<in> fst ` set [(''C'', ''y'')]. n \<noteq> ''B'' \<and> brace_free n"
    by (simp add: brace_free_def)
  have r: "replace_in_string nested_earlier ''{{A}}'' = ''{{B}}''"
    by code_simp
  from substituted_value_not_rescanned_by_earlier_passes [OF a b bf(1) post]
  have "sublist (token ''B'') (replace_in_string nested_earlier ''{{A}}'')"
    unfolding d by blast
  with d a b bf r show ?thesis by blast
qed

section \<open>Substitution of well-formed template text\<close>

lemma tokenised_brace_free_append:
  "brace_free v \<Longrightarrow> tokenised names w \<Longrightarrow> tokenised names (v @ w)"
proof (induction v)
  case Nil
  then show ?case by simp
next
  case (Cons c v)
  then have "tokenised names (v @ w)" "c \<noteq> CHR ''{''" "c \<noteq> CHR ''}''"
    by (auto simp: brace_free_def)
  then show ?case
    by (simp add: tokenised_char)
qed

lemma py_replace_token_at_head:
  "py_replace (token a) v (token a @ s) = v @ py_replace (token a) v s"
proof -
  obtain c cs where t: "token a = c # cs"
    using token_not_Nil [of a] by (cases "token a") auto
  have "py_replace (token a) v ((c # cs) @ s) =
          v @ py_replace (token a) v (drop (length (token a)) ((c # cs) @ s))"
    using token_not_Nil [of a] t by simp
  then show ?thesis
    using t by (metis append_eq_conv_conj)
qed

lemma py_replace_other_token_at_head:
  assumes "brace_free a" and "brace_free n" and "n \<noteq> a"
  shows "py_replace (token a) v (token n @ s) = token n @ py_replace (token a) v s"
proof (rule py_replace_skip)
  show "token a \<noteq> []" by (rule token_not_Nil)
next
  show "\<forall>j < length (token n). \<not> prefix (token a) (drop j (token n) @ s)"
    using assms token_starts_only_at_token [of a n _ s] by blast
qed

lemma py_replace_tokenised:
  assumes a: "brace_free a" and v: "brace_free v"
  shows "tokenised names s \<Longrightarrow> tokenised (names - {a}) (py_replace (token a) v s)"
proof (induction rule: tokenised.induct)
  case tokenised_Nil
  show ?case
    using token_not_Nil [of a] by (simp add: tokenised.tokenised_Nil)
next
  case (tokenised_char s c)
  have "\<not> prefix (token a) (c # s)"
    using tokenised_char.hyps by (simp add: token_def)
  then have "py_replace (token a) v (c # s) = c # py_replace (token a) v s"
    using token_not_Nil [of a] by simp
  with tokenised_char show ?case
    by (simp add: tokenised.tokenised_char)
next
  case (tokenised_token s n)
  show ?case
  proof (cases "n = a")
    case True
    with tokenised_token.IH v show ?thesis
      by (simp add: py_replace_token_at_head tokenised_brace_free_append)
  next
    case False
    with tokenised_token a
    have "py_replace (token a) v (token n @ s) = token n @ py_replace (token a) v s"
      by (intro py_replace_other_token_at_head) auto
    moreover from False tokenised_token
    have "tokenised (names - {a}) (token n @ py_replace (token a) v s)"
      by (intro tokenised.tokenised_token) auto
    ultimately show ?thesis by simp
  qed
qed

lemma replace_in_string_tokenised:
  "tokenised names s \<Longrightarrow> \<forall>(n, v) \<in> set vs. brace_free n \<and> brace_free v \<Longrightarrow>
   tokenised (names - fst ` set vs) (replace_in_string vs s)"
proof (induction vs arbitrary: names s)
  case Nil
  then show ?case by simp
next
  case (Cons nv vs)
  obtain n v where nv: "nv = (n, v)" by (cases nv)
  with Cons.prems have "brace_free n" "brace_free v" by auto
  with Cons.prems(1) have "tokenised (names - {n}) (py_replace (token n) v s)"
    by (intro py_replace_tokenised)
  moreover from Cons.prems have "\<forall>(n, v) \<in> set vs. brace_free n \<and> brace_free v" by simp
  ultimately have "tokenised (names - {n} - fst ` set vs)
      (replace_in_string vs (py_replace (token n) v s))"
    by (rule Cons.IH)
  moreover have "names - {n} - fst ` set vs = names - fst ` set (nv # vs)"
    using nv by auto
  ultimately show ?case
    using nv by simp
qed

lemma tokenised_no_names: "tokenised {} s \<Longrightarrow> CHR ''{'' \<notin> set s"
  by (induction rule: tokenised.induct) auto

lemma findall_no_open_brace: "CHR ''{'' \<notin> set s \<Longrightarrow> findall w s = []"
proof (induction s)
  case Nil
  show ?case by simp
next
  case (Cons c cs)
  then have "match_at w (c # cs) = None"
    by (cases cs) auto
  with Cons show ?case by simp
qed

lemma findall_substituted:
  assumes "tokenised (fst ` set vs) s"
    and "\<forall>(n, v) \<in> set vs. brace_free n \<and> brace_free v"
  shows "findall w (replace_in_string vs s) = []"
proof -
  from assms have "tokenised (fst ` set vs - fst ` set vs) (replace_in_string vs s)"
    by (rule replace_in_string_tokenised)
  then have "tokenised {} (replace_in_string vs s)" by simp
  then show ?thesis
    by (intro findall_no_open_brace tokenised_no_names)
qed


subsection \<open>The scan after substitution, field by field\<close>

lemma concat_map_Nil: "(\<And>x. x \<in> set xs \<Longrightarrow> f x = []) \<Longrightarrow> concat (map f xs) = []"
  by (induction xs) auto

lemma scan_criteria_dict:
  assumes "\<And>s. s \<in> set (criteria_strings c) \<Longrightarrow> findall w (replace_in_string vs s) = []"
  shows "scan_value w (subst_item vs (criteria_dict c)) = []"
proof (cases "cvalue c")
  case (VStr s)
  with assms show ?thesis
    by (simp add: criteria_dict_def criteria_strings_def)
next
  case (VList l)
  with assms have "concat (map (\<lambda>s. findall w (replace_in_string vs s)) l) = []"
    by (intro concat_map_Nil) (simp add: criteria_strings_def)
  with VList assms show ?thesis
    by (simp add: criteria_dict_def criteria_strings_def comp_def)
qed

lemma scan_permission_dict:
  assumes "\<And>s. s \<in> set (permission_strings p) \<Longrightarrow> findall w (replace_in_string vs s) = []"
  shows "scan_value w (subst_item vs (permission_dict p)) = []"
  using assms by (simp add: permission_dict_def permission_strings_def)

lemma scan_criteria_list:
  assumes "\<And>s. s \<in> set (concat (map criteria_strings (or_empty l))) \<Longrightarrow>
             findall w (replace_in_string vs s) = []"
  shows "scan_value w (subst_value vs (criteria_list l)) = []"
proof (cases l)
  case None
  then show ?thesis by (simp add: criteria_list_def)
next
  case (Some cs)
  have "concat (map (\<lambda>c. scan_value w (subst_item vs (criteria_dict c))) cs) = []"
  proof (rule concat_map_Nil)
    fix c assume "c \<in> set cs"
    with assms Some show "scan_value w (subst_item vs (criteria_dict c)) = []"
      by (intro scan_criteria_dict) (auto simp: or_empty_def)
  qed
  with Some show ?thesis
    by (simp add: criteria_list_def comp_def)
qed

lemma scan_c_dict:
  assumes "\<And>s. s \<in> set (template_strings c) \<Longrightarrow> findall w (replace_in_string vs s) = []"
  shows "concat (map (\<lambda>(key, v). scan_value w v)
           (map (\<lambda>(key, v). (key, subst_value vs v)) (c_dict c))) = []"
proof -
  have a: "scan_value w (subst_value vs (criteria_list (tc_criteriaAnd c))) = []"
    using assms by (intro scan_criteria_list) (simp add: template_strings_def)
  have o: "scan_value w (subst_value vs (criteria_list (tc_criteriaOr c))) = []"
    using assms by (intro scan_criteria_list) (simp add: template_strings_def)
  have "concat (map (\<lambda>p. scan_value w (subst_item vs (permission_dict p)))
          (tc_groupPermissions c)) = []"
  proof (rule concat_map_Nil)
    fix p assume "p \<in> set (tc_groupPermissions c)"
    with assms show "scan_value w (subst_item vs (permission_dict p)) = []"
      by (intro scan_permission_dict) (auto simp: template_strings_def)
  qed
  then have p: "scan_value w (subst_value vs
      (PList (map permission_dict (tc_groupPermissions c)))) = []"
    by (simp add: comp_def)
  have n: "findall w (replace_in_string vs (tc_name c)) = []"
    "findall w (replace_in_string vs (tc_description c)) = []"
    "findall w (replace_in_string vs (tc_objectType c)) = []"
    using assms by (simp_all add: template_strings_def)
  show ?thesis
    using a o p n by (simp add: c_dict_def)
qed

lemma scan_substituted_template:
  assumes "\<And>c s. c \<in> set cs \<Longrightarrow> s \<in> set (template_strings c) \<Longrightarrow>
             findall w (replace_in_string vs s) = []"
  shows "find_unreplaced_variables w (substitute_variables (map c_dict cs) vs) = {}"
proof -
  have "concat (map (\<lambda>c. concat (map (\<lambda>(key, v). scan_value w v)
           (map (\<lambda>(key, v). (key, subst_value vs v)) (c_dict c)))) cs) = []"
    using assms by (intro concat_map_Nil scan_c_dict) auto
  then show ?thesis
    by (simp add: find_unreplaced_variables_def substitute_variables_def comp_def)
qed

text \<open>
  C5, as stated, says that the scan finds nothing after substitution as soon as every
  declared variable has a value. The template below declares \<^verbatim>\<open>ROLE_NAME\<close> and
  \<^verbatim>\<open>DATABASE_ID\<close>, gives both a value and passes validation, and its constraint also uses
  \<^verbatim>\<open>{{ZONE}}\<close>, which is not declared: the scan finds \<^verbatim>\<open>ZONE\<close>.
\<close>

theorem substitution_completeness_counterexample:
  "validate_template_import sample_common undeclared_variable_request =
     Inr undeclared_variable_request \<and>
   map var_name (or_empty (variables undeclared_variable_request)) =
     [''ROLE_NAME'', ''DATABASE_ID''] \<and>
   map (map_of (variableValues undeclared_variable_request))
     (map var_name (or_empty (variables undeclared_variable_request))) =
     [Some ''db-admin'', Some ''proj1''] \<and>
   find_unreplaced_variables (word_char sample_env)
     (substitute_variables (map c_dict (constraints undeclared_variable_request))
        (variableValues undeclared_variable_request)) = {''ZONE''}"
  by code_simp

text \<open>
  C5, amended. For every template whose strings are made of text without braces and of
  tokens \<^verbatim>\<open>{{NAME}}\<close> of variables that have a value in \<^verbatim>\<open>variableValues\<close>, where the
  names and the values in \<^verbatim>\<open>variableValues\<close> have no braces, the unreplaced-variable scan
  on the output of substitution returns the empty set.
\<close>

theorem substitution_completeness:
  "\<forall>c \<in> set (constraints t). \<forall>s \<in> set (template_strings c).
      tokenised (fst ` set (variableValues t)) s \<Longrightarrow>
   \<forall>(n, v) \<in> set (variableValues t). brace_free n \<and> brace_free v \<Longrightarrow>
   find_unreplaced_variables w
     (substitute_variables (map c_dict (constraints t)) (variableValues t)) = {}"
  by (intro scan_substituted_template findall_substituted) auto


lemma tokenised_brace_free: "brace_free s \<Longrightarrow> tokenised names s"
  using tokenised_brace_free_append [of s names "[]"]
  by (simp add: tokenised_Nil)

lemma scenario_strings:
  "concat (map template_strings (constraints scenario_request)) =
     [''{{ROLE_NAME}}-access'', ''access'', ''asset'', ''databaseId'', ''equals'',
      ''{{DATABASE_ID}}'', ''GET'', ''allow'']"
  by (simp add: scenario_request_def sample_request_def sample_template_constraint_def
      template_strings_def criteria_strings_def permission_strings_def or_empty_def)

theorem substitution_completeness_witness:
  "concat (map template_strings (constraints scenario_request)) =
     [''{{ROLE_NAME}}-access'', ''access'', ''asset'', ''databaseId'', ''equals'',
      ''{{DATABASE_ID}}'', ''GET'', ''allow''] \<and>
   variableValues scenario_request = [(''ROLE_NAME'', ''db-admin''), (''DATABASE_ID'', ''proj1'')] \<and>
   find_unreplaced_variables (word_char sample_env)
     (substitute_variables (map c_dict (constraints scenario_request))
        (variableValues scenario_request)) = {}"
proof -
  let ?names = "fst ` set (variableValues scenario_request)"
  have vs: "variableValues scenario_request =
      [(''ROLE_NAME'', ''db-admin''), (''DATABASE_ID'', ''proj1'')]"
    by (simp add: scenario_request_def sample_request_def)
  have names: "''ROLE_NAME'' \<in> ?names" "''DATABASE_ID'' \<in> ?names"
    by (simp_all add: vs)
  have bf: "\<forall>(n, v) \<in> set (variableValues scenario_request). brace_free n \<and> brace_free v"
    by (simp add: vs brace_free_def)
  have "tokenised ?names (token ''ROLE_NAME'' @ ''-access'')"
    using names(1) by (intro tokenised_token tokenised_brace_free) (simp_all add: brace_free_def)
  then have t1: "tokenised ?names ''{{ROLE_NAME}}-access''"
    by (simp add: token_def)
  have "tokenised ?names (token ''DATABASE_ID'' @ [])"
    using names(2) by (intro tokenised_token tokenised_Nil) (simp_all add: brace_free_def)
  then have t2: "tokenised ?names ''{{DATABASE_ID}}''"
    by (simp add: token_def)
  have lit: "tokenised ?names ''access''" "tokenised ?names ''asset''"
    "tokenised ?names ''databaseId''" "tokenised ?names ''equals''"
    "tokenised ?names ''GET''" "tokenised ?names ''allow''"
    by (rule tokenised_brace_free, simp add: brace_free_def)+
  have "\<forall>s \<in> set (concat (map template_strings (constraints scenario_request))).
      tokenised ?names s"
    unfolding scenario_strings using t1 t2 lit by simp
  then have ts: "\<forall>c \<in> set (constraints scenario_request). \<forall>s \<in> set (template_strings c).
      tokenised ?names s"
    by auto
  from substitution_completeness [OF ts bf] scenario_strings vs
  show ?thesis by blast
qed

end
